theory Spec2Isabelle
  imports Complex_Main
begin

section \<open>JavaScript strings\<close>

text \<open>
  A JavaScript string is a sequence of UTF-16 code units. A code unit is modelled as a
  natural number (below 65536 in a real string; no definition depends on that bound),
  so that the character classes of the regular expressions (\<open>\d\<close>, \<open>\s\<close>) are
  exactly the sets the language defines. \<open>str\<close> turns an ASCII literal into code units.
\<close>

type_synonym jsstring = "nat list"

definition str :: "string \<Rightarrow> jsstring" where
  "str s = map of_char s"

definition is_digit :: "nat \<Rightarrow> bool" where
  "is_digit c = (48 \<le> c \<and> c \<le> 57)"

text \<open>\<open>\s\<close>: WhiteSpace and LineTerminator of ECMAScript (TAB, LF, VT, FF, CR, SP, NBSP,
  U+1680, U+2000..U+200A, U+2028, U+2029, U+202F, U+205F, U+3000, U+FEFF).\<close>

definition is_space :: "nat \<Rightarrow> bool" where
  "is_space c = (c = 9 \<or> c = 10 \<or> c = 11 \<or> c = 12 \<or> c = 13 \<or> c = 32 \<or> c = 160 \<or>
     c = 5760 \<or> (8192 \<le> c \<and> c \<le> 8202) \<or> c = 8232 \<or> c = 8233 \<or> c = 8239 \<or>
     c = 8287 \<or> c = 12288 \<or> c = 65279)"

text \<open>\<open>[\d.]\<close>\<close>

definition is_digit_or_dot :: "nat \<Rightarrow> bool" where
  "is_digit_or_dot c = (is_digit c \<or> c = 46)"

text \<open>\<open>s.startsWith(p)\<close>, returning the rest of \<open>s\<close> after \<open>p\<close>.\<close>

fun strip_prefix :: "jsstring \<Rightarrow> jsstring \<Rightarrow> jsstring option" where
  "strip_prefix [] s = Some s"
| "strip_prefix (p # ps) [] = None"
| "strip_prefix (p # ps) (c # cs) = (if p = c then strip_prefix ps cs else None)"

text \<open>\<open>s.includes(p)\<close>: \<open>p\<close> occurs in \<open>s\<close> as a contiguous substring.\<close>

fun js_includes :: "jsstring \<Rightarrow> jsstring \<Rightarrow> bool" where
  "js_includes [] p = (p = [])"
| "js_includes (c # cs) p = (strip_prefix p (c # cs) \<noteq> None \<or> js_includes cs p)"

text \<open>\<open>toUpperCase\<close> and \<open>toLowerCase\<close> on the ASCII letters. The source applies
  \<open>toUpperCase\<close> only to \<open>'#'\<close> followed by outputs of \<open>toString(16)\<close>, which are
  ASCII, and compares the result of \<open>toLowerCase\<close> only with \<open>'body'\<close> and \<open>'html'\<close>,
  whose letters are the lower case of no code unit outside ASCII.\<close>

definition toUpperCase :: "jsstring \<Rightarrow> jsstring" where
  "toUpperCase s = map (\<lambda>c. if 97 \<le> c \<and> c \<le> 122 then c - 32 else c) s"

definition toLowerCase :: "jsstring \<Rightarrow> jsstring" where
  "toLowerCase s = map (\<lambda>c. if 65 \<le> c \<and> c \<le> 90 then c + 32 else c) s"

text \<open>\<open>s.padStart(2, '0')\<close>\<close>

definition padStart2 :: "jsstring \<Rightarrow> jsstring" where
  "padStart2 s = replicate (2 - length s) 48 @ s"

section \<open>JavaScript numbers\<close>

text \<open>
  A Number is an IEEE 754 binary64 value: a finite value (a rational; the two zeros are
  identified, which no function below can observe in its result), an infinity or NaN.
  Every arithmetic operation computes the exact result and rounds it to the nearest
  binary64 value, ties to even, overflowing to an infinity.
\<close>

datatype number = Finite rat | PosInf | NegInf | NaN

function ilog2 :: "rat \<Rightarrow> int" where
  "ilog2 q = (if q \<le> 0 then 0
              else if 2 \<le> q then ilog2 (q / 2) + 1
              else if q < 1 then ilog2 (q * 2) - 1
              else 0)"
  by pat_completeness auto
termination
proof (relation "measure (\<lambda>q. if 1 \<le> q then nat \<lfloor>q\<rfloor> else nat \<lceil>1 / q\<rceil>)")
  show "wf (measure (\<lambda>q::rat. if 1 \<le> q then nat \<lfloor>q\<rfloor> else nat \<lceil>1 / q\<rceil>))"
    by simp
next
  fix q :: rat
  assume a: "\<not> q \<le> 0" "2 \<le> q"
  have "\<lfloor>q / 2\<rfloor> < \<lfloor>q\<rfloor>"
  proof -
    have "of_int \<lfloor>q / 2\<rfloor> \<le> q / 2" by (rule of_int_floor_le)
    also have "q / 2 \<le> q - 1" using a by linarith
    also have "q - 1 < of_int \<lfloor>q\<rfloor>" by linarith
    finally show ?thesis by simp
  qed
  moreover have "0 < \<lfloor>q\<rfloor>" using a by simp
  ultimately show "(q / 2, q) \<in> measure (\<lambda>q. if 1 \<le> q then nat \<lfloor>q\<rfloor> else nat \<lceil>1 / q\<rceil>)"
    using a by simp
next
  fix q :: rat
  assume a: "\<not> q \<le> 0" "\<not> 2 \<le> q" "q < 1"
  then have q: "0 < q" by simp
  have one: "1 < 1 / q" using a q by simp
  show "(q * 2, q) \<in> measure (\<lambda>q. if 1 \<le> q then nat \<lfloor>q\<rfloor> else nat \<lceil>1 / q\<rceil>)"
  proof (cases "1 \<le> q * 2")
    case True
    have "q * 2 < 2" using a by simp
    then have "\<lfloor>q * 2\<rfloor> = 1" using True by linarith
    moreover have "2 \<le> \<lceil>1 / q\<rceil>" using one by linarith
    ultimately show ?thesis using True a by simp
  next
    case False
    define x where "x = 1 / q"
    have two: "2 < x" using False q by (simp add: x_def field_simps)
    have half: "1 / (q * 2) = x / 2" by (simp add: x_def)
    have "of_int \<lceil>x / 2\<rceil> < x / 2 + 1" by linarith
    also have "\<dots> \<le> x" using two by linarith
    also have "x \<le> of_int \<lceil>x\<rceil>" by (rule le_of_int_ceiling)
    finally have "\<lceil>1 / (q * 2)\<rceil> < \<lceil>1 / q\<rceil>" by (simp add: half) (simp add: x_def)
    moreover have "0 < \<lceil>1 / q\<rceil>" using one by linarith
    ultimately show ?thesis using False a by simp
  qed
qed

declare ilog2.simps [simp del]

text \<open>Round a non-negative rational to an integer, ties to even.\<close>

definition round_even :: "rat \<Rightarrow> int" where
  "round_even x = (let f = \<lfloor>x\<rfloor>; r = x - of_int f in
     if r < 1 / 2 then f else if 1 / 2 < r then f + 1 else if even f then f else f + 1)"

text \<open>\<open>2\<^sup>k\<close> for an integer \<open>k\<close>.\<close>

definition pow2 :: "int \<Rightarrow> rat" where
  "pow2 k = (if 0 \<le> k then of_int (2 ^ nat k) else 1 / of_int (2 ^ nat (- k)))"

text \<open>The binary64 exponent of \<open>q\<close>: that of the subnormal numbers when \<open>q\<close> is
  smaller than every normal number.\<close>

definition expo :: "rat \<Rightarrow> int" where
  "expo q = max (ilog2 \<bar>q\<bar>) (- 1022)"

text \<open>The Number value for a mathematical value \<open>q\<close>: with \<open>e\<close> the exponent of \<open>q\<close>,
  the binary64 values around \<open>q\<close> are the multiples of \<open>2\<^sup>e\<^sup>-\<^sup>5\<^sup>2\<close>; \<open>q\<close> is rounded to
  the nearest one, and the result is infinite when it reaches \<open>2\<^sup>1\<^sup>0\<^sup>2\<^sup>4\<close>.\<close>

definition rnd :: "rat \<Rightarrow> number" where
  "rnd q = (let e = expo q in
     if 1023 < e then (if 0 < q then PosInf else NegInf)
     else let m = round_even (\<bar>q\<bar> / pow2 (e - 52)) in
       if e = 1023 \<and> m = 2 ^ 53 then (if 0 < q then PosInf else NegInf)
       else Finite ((if 0 < q then 1 else - 1) * of_int m * pow2 (e - 52)))"

text \<open>Addition, subtraction, multiplication and division of Numbers.\<close>

fun num_add :: "number \<Rightarrow> number \<Rightarrow> number" where
  "num_add NaN _ = NaN"
| "num_add _ NaN = NaN"
| "num_add PosInf NegInf = NaN"
| "num_add NegInf PosInf = NaN"
| "num_add PosInf _ = PosInf"
| "num_add _ PosInf = PosInf"
| "num_add NegInf _ = NegInf"
| "num_add _ NegInf = NegInf"
| "num_add (Finite x) (Finite y) = rnd (x + y)"

fun num_neg :: "number \<Rightarrow> number" where
  "num_neg NaN = NaN"
| "num_neg PosInf = NegInf"
| "num_neg NegInf = PosInf"
| "num_neg (Finite x) = Finite (- x)"

definition num_sub :: "number \<Rightarrow> number \<Rightarrow> number" where
  "num_sub a b = num_add a (num_neg b)"

text \<open>The sign of a Number that is not NaN: 1, 0 or -1.\<close>

fun num_sgn :: "number \<Rightarrow> int" where
  "num_sgn (Finite x) = (if 0 < x then 1 else if x < 0 then - 1 else 0)"
| "num_sgn PosInf = 1"
| "num_sgn NegInf = - 1"
| "num_sgn NaN = 0"

fun num_mul :: "number \<Rightarrow> number \<Rightarrow> number" where
  "num_mul NaN _ = NaN"
| "num_mul _ NaN = NaN"
| "num_mul (Finite x) (Finite y) = rnd (x * y)"
| "num_mul a b =
     (let s = num_sgn a * num_sgn b in
      if s = 0 then NaN else if 0 < s then PosInf else NegInf)"

text \<open>Division; a zero divisor is the positive zero.\<close>

fun num_div :: "number \<Rightarrow> number \<Rightarrow> number" where
  "num_div NaN _ = NaN"
| "num_div _ NaN = NaN"
| "num_div (Finite x) (Finite y) =
     (if y = 0 then (if x = 0 then NaN else if 0 < x then PosInf else NegInf)
      else rnd (x / y))"
| "num_div (Finite x) _ = Finite 0"
| "num_div a (Finite y) =
     (if (0 \<le> y) = (a = PosInf) then PosInf else NegInf)"
| "num_div _ _ = NaN"

text \<open>\<open>a > b\<close>: false when an operand is NaN.\<close>

fun num_gt :: "number \<Rightarrow> number \<Rightarrow> bool" where
  "num_gt NaN _ = False"
| "num_gt _ NaN = False"
| "num_gt (Finite x) (Finite y) = (y < x)"
| "num_gt PosInf b = (b \<noteq> PosInf)"
| "num_gt a NegInf = (a \<noteq> NegInf)"
| "num_gt _ _ = False"

text \<open>\<open>Math.round\<close>: the nearest integer, a tie going up. \<open>Math.min\<close> and \<open>Math.max\<close>
  return NaN when an argument is NaN.\<close>

fun Math_round :: "number \<Rightarrow> number" where
  "Math_round (Finite x) = Finite (of_int \<lfloor>x + 1 / 2\<rfloor>)"
| "Math_round a = a"

definition Math_min :: "number \<Rightarrow> number \<Rightarrow> number" where
  "Math_min a b = (if a = NaN \<or> b = NaN then NaN else if num_gt a b then b else a)"

definition Math_max :: "number \<Rightarrow> number \<Rightarrow> number" where
  "Math_max a b = (if a = NaN \<or> b = NaN then NaN else if num_gt b a then b else a)"

text \<open>A decimal literal of the source, \<open>n / 10\<^sup>k\<close>, as a Number.\<close>

definition lit :: "int \<Rightarrow> nat \<Rightarrow> number" where
  "lit n k = rnd (of_int n / 10 ^ k)"

subsection \<open>Numbers and strings\<close>

definition hex_digit :: "nat \<Rightarrow> nat" where
  "hex_digit d = (if d < 10 then 48 + d else 87 + d)"

fun hex_of_nat :: "nat \<Rightarrow> jsstring" where
  "hex_of_nat n = (if n < 16 then [hex_digit n] else hex_of_nat (n div 16) @ [hex_digit (n mod 16)])"

declare hex_of_nat.simps [simp del]

text \<open>\<open>n.toString(16)\<close>. The source calls it on results of \<open>parseInt\<close> and of
  \<open>Math.round\<close> only, which are integers, infinite or NaN; the digits after the point
  that a fraction would print are not modelled.\<close>

fun toString16 :: "number \<Rightarrow> jsstring" where
  "toString16 NaN = str ''NaN''"
| "toString16 PosInf = str ''Infinity''"
| "toString16 NegInf = str ''-Infinity''"
| "toString16 (Finite x) =
     (if x < 0 then 45 # hex_of_nat (nat \<lfloor>- x\<rfloor>) else hex_of_nat (nat \<lfloor>x\<rfloor>))"

text \<open>The value of a string of decimal digits.\<close>

definition digit_val :: "nat \<Rightarrow> nat" where
  "digit_val c = c - 48"

definition dec :: "jsstring \<Rightarrow> nat" where
  "dec ds = foldl (\<lambda>a c. 10 * a + digit_val c) 0 ds"

text \<open>\<open>parseInt(s)\<close> for a string that starts with a decimal digit or is empty (the
  source passes captures of \<open>\d+\<close>): the leading digits, read in base 10.\<close>

definition parseInt :: "jsstring \<Rightarrow> number" where
  "parseInt s = (let ds = takeWhile is_digit s in
     if ds = [] then NaN else rnd (of_nat (dec ds)))"

text \<open>\<open>parseFloat(s)\<close> for a string of digits and points (the source passes captures of
  \<open>[\d.]+\<close>): the longest prefix that is a decimal literal, digits with an optional
  point and fraction or a point and a fraction; NaN when there is none.\<close>

definition parseFloat :: "jsstring \<Rightarrow> number" where
  "parseFloat s = (let ip = takeWhile is_digit s; r = dropWhile is_digit s;
       fp = (case r of [] \<Rightarrow> [] | c # cs \<Rightarrow> if c = 46 then takeWhile is_digit cs else [])
     in if ip = [] \<and> fp = [] then NaN
        else rnd (of_nat (dec ip) + of_nat (dec fp) / 10 ^ length fp))"

section \<open>The colour converter\<close>

subsection \<open>The pattern \<open>/rgba?\((\d+),\s*(\d+),\s*(\d+)(?:,\s*([\d.]+))?\)/\<close>\<close>

text \<open>
  The four capture groups of a match; the fourth is absent when the optional group did
  not take part in the match.
\<close>

record rgb_match =
  m1 :: jsstring
  m2 :: jsstring
  m3 :: jsstring
  m4 :: "jsstring option"

text \<open>
  A match starting at the head of the string. Every quantified class of the pattern is
  followed by a character outside the class (\<open>\d+\<close> by a comma or the bracket, \<open>\s*\<close> by
  a digit, \<open>[\d.]+\<close> by the bracket), so the greedy choice is the only one that can
  succeed and backtracking into a quantifier never finds another match. The optional
  group is tried first; when the match fails with it, it is tried without.
\<close>

definition match_alpha :: "jsstring \<Rightarrow> jsstring option" where
  "match_alpha s = (case strip_prefix (str '','') s of None \<Rightarrow> None
     | Some s1 \<Rightarrow>
       let s2 = dropWhile is_space s1; a = takeWhile is_digit_or_dot s2;
           s3 = dropWhile is_digit_or_dot s2
       in if a = [] then None
          else (case strip_prefix (str '')'') s3 of None \<Rightarrow> None | Some _ \<Rightarrow> Some a))"

definition match_channel :: "jsstring \<Rightarrow> (jsstring \<times> jsstring) option" where
  "match_channel s = (let d = takeWhile is_digit s in
     if d = [] then None else Some (d, dropWhile is_digit s))"

definition match_sep :: "jsstring \<Rightarrow> jsstring option" where
  "match_sep s = map_option (dropWhile is_space) (strip_prefix (str '','') s)"

definition match_here :: "jsstring \<Rightarrow> rgb_match option" where
  "match_here s = (case strip_prefix (str ''rgb'') s of None \<Rightarrow> None
     | Some s1 \<Rightarrow>
     (case strip_prefix (str ''('') (case strip_prefix (str ''a'') s1 of None \<Rightarrow> s1 | Some s2 \<Rightarrow> s2) of
        None \<Rightarrow> None
      | Some s3 \<Rightarrow>
     (case match_channel s3 of None \<Rightarrow> None
      | Some (d1, s4) \<Rightarrow>
     (case match_sep s4 of None \<Rightarrow> None
      | Some s5 \<Rightarrow>
     (case match_channel s5 of None \<Rightarrow> None
      | Some (d2, s6) \<Rightarrow>
     (case match_sep s6 of None \<Rightarrow> None
      | Some s7 \<Rightarrow>
     (case match_channel s7 of None \<Rightarrow> None
      | Some (d3, s8) \<Rightarrow>
     (case match_alpha s8 of
        Some a \<Rightarrow> Some \<lparr>m1 = d1, m2 = d2, m3 = d3, m4 = Some a\<rparr>
      | None \<Rightarrow>
     (case strip_prefix (str '')'') s8 of None \<Rightarrow> None
      | Some _ \<Rightarrow> Some \<lparr>m1 = d1, m2 = d2, m3 = d3, m4 = None\<rparr>)))))))))"

text \<open>\<open>rgbString.match(pattern)\<close> for a pattern without the global flag: the match at
  the leftmost position where there is one.\<close>

fun rgb_exec :: "jsstring \<Rightarrow> rgb_match option" where
  "rgb_exec [] = match_here []"
| "rgb_exec (c # cs) = (case match_here (c # cs) of Some m \<Rightarrow> Some m | None \<Rightarrow> rgb_exec cs)"

subsection \<open>\<open>vortexRgbToHex\<close>\<close>

definition toHex :: "number \<Rightarrow> jsstring" where
  "toHex n = padStart2 (toString16 n)"

text \<open>The alpha of a match: \<open>match[4] ? parseFloat(match[4]) : null\<close>; an absent group
  and the empty string are falsy.\<close>

definition alpha_of :: "rgb_match \<Rightarrow> number option" where
  "alpha_of m = (case m4 m of None \<Rightarrow> None
     | Some t \<Rightarrow> if t = [] then None else Some (parseFloat t))"

definition vortexRgbToHex :: "jsstring \<Rightarrow> jsstring" where
  "vortexRgbToHex rgbString = (case rgb_exec rgbString of
      None \<Rightarrow> rgbString
    | Some m \<Rightarrow>
       let r = parseInt (m1 m); g = parseInt (m2 m); b = parseInt (m3 m);
           a = alpha_of m;
           hex = str ''#'' @ toHex r @ toHex g @ toHex b;
           hex = (case a of None \<Rightarrow> hex
             | Some av \<Rightarrow>
                 if av \<noteq> Finite 1
                 then hex @ padStart2 (toString16 (Math_round (num_mul av (Finite 255))))
                 else hex)
       in toUpperCase hex)"

subsection \<open>\<open>vortexOklabToRgb\<close>\<close>

text \<open>
  \<open>Math.pow\<close> is implementation-approximated in ECMAScript, so it is a parameter \<open>pw\<close>
  of the model: the theorems about \<open>vortexOklabToRgb\<close> hold for every function in its
  place. The sRGB transfer function of the source, applied to each channel:
\<close>

definition gamma_correct :: "(number \<Rightarrow> number \<Rightarrow> number) \<Rightarrow> number \<Rightarrow> number" where
  "gamma_correct pw v =
     (if num_gt v (lit 31308 7)
      then num_sub (num_mul (lit 1055 3) (pw v (num_div (Finite 1) (lit 24 1)))) (lit 55 3)
      else num_mul (lit 1292 2) v)"

definition to_byte :: "number \<Rightarrow> number" where
  "to_byte v = Math_max (Finite 0) (Math_min (Finite 255) (Math_round (num_mul v (Finite 255))))"

definition vortexOklabToRgb ::
  "(number \<Rightarrow> number \<Rightarrow> number) \<Rightarrow> number \<Rightarrow> number \<Rightarrow> number \<Rightarrow> number list" where
  "vortexOklabToRgb pw L a b =
    (let l = num_add (num_add L (num_mul (lit 3963377774 10) a)) (num_mul (lit 2158037573 10) b);
         m = num_sub (num_sub L (num_mul (lit 1055613458 10) a)) (num_mul (lit 638541728 10) b);
         s = num_sub (num_sub L (num_mul (lit 894841775 10) a)) (num_mul (lit 12914855480 10) b);
         l3 = num_mul (num_mul l l) l;
         m3 = num_mul (num_mul m m) m;
         s3 = num_mul (num_mul s s) s;
         r = num_add (num_sub (num_mul (lit 40767416621 10) l3) (num_mul (lit 30771159139 10) m3))
               (num_mul (lit 2309699292 10) s3);
         g = num_sub (num_add (num_mul (num_neg (lit 12684380046 10)) l3)
               (num_mul (lit 26097574011 10) m3)) (num_mul (lit 3413193965 10) s3);
         bl = num_add (num_sub (num_mul (num_neg (lit 41960863 10)) l3)
               (num_mul (lit 7034186147 10) m3)) (num_mul (lit 17076147010 10) s3);
         r = gamma_correct pw r;
         g = gamma_correct pw g;
         bl = gamma_correct pw bl
     in [to_byte r, to_byte g, to_byte bl])"

section \<open>The document\<close>

text \<open>
  The rendering engine is an external collaborator: the extractors only call its
  interface. It is a parameter of the model, a record of functions over a page state
  \<open>'p\<close> that the model never inspects. \<open>blur\<close>, \<open>click\<close> and \<open>elapse\<close> (the time that
  passes while the call is suspended) change the page state; the other functions read
  it. The document is an HTML document: \<open>document.body\<close> is an element, and every
  element has \<open>blur()\<close> and \<open>click()\<close>.
\<close>

type_synonym elem = nat

text \<open>A value that is a string or another object (the \<open>className\<close> of an SVG element is
  not a string).\<close>

datatype jsval = JStr jsstring | JObj

record computed_style =
  borderWidth :: jsstring
  borderColor :: jsstring
  backgroundColor :: jsstring

record 'p browser =
  querySelector :: "'p \<Rightarrow> jsstring \<Rightarrow> elem option"
  activeElement :: "'p \<Rightarrow> elem option"
  body :: "'p \<Rightarrow> elem"
  blur :: "elem \<Rightarrow> 'p \<Rightarrow> 'p"
  click :: "elem \<Rightarrow> 'p \<Rightarrow> 'p"
  elapse :: "nat \<Rightarrow> 'p \<Rightarrow> 'p"
  getComputedStyle :: "'p \<Rightarrow> elem \<Rightarrow> computed_style"
  parentElement :: "'p \<Rightarrow> elem \<Rightarrow> elem option"
  className :: "'p \<Rightarrow> elem \<Rightarrow> jsval"
  tagName :: "'p \<Rightarrow> elem \<Rightarrow> jsstring"
  getAttribute_role :: "'p \<Rightarrow> elem \<Rightarrow> jsstring option"

text \<open>What a call does to the page, in order: the log of its effects and of its
  computed-style reads.\<close>

datatype event = Blur elem | Click elem | Wait nat | ComputedStyle elem

text \<open>The errors a call can throw: the two \<open>Error\<close>s of the source, and the \<open>TypeError\<close> of
  \<open>getComputedStyle(null)\<close>.\<close>

datatype error = ElementNotFound jsstring | ContainerNotFound | TypeError

text \<open>The returned objects: \<open>{color, element}\<close> and \<open>{color, element, width}\<close>.\<close>

record container_result =
  color :: jsstring
  element :: jsval

record border_result = container_result +
  width :: jsstring

text \<open>Truthiness of a \<open>className\<close>, and \<open>el.className || el.tagName\<close>.\<close>

fun truthy :: "jsval \<Rightarrow> bool" where
  "truthy (JStr s) = (s \<noteq> [])"
| "truthy JObj = True"

definition descriptor :: "'p browser \<Rightarrow> 'p \<Rightarrow> elem \<Rightarrow> jsval" where
  "descriptor br p e =
     (if truthy (className br p e) then className br p e else JStr (tagName br p e))"

section \<open>The resting border extractor\<close>

definition vortexExtractFormFieldBorderColor ::
  "'p browser \<Rightarrow> 'p \<Rightarrow> jsstring \<Rightarrow> (error + border_result) \<times> 'p \<times> event list" where
  "vortexExtractFormFieldBorderColor br p0 selector =
    (case querySelector br p0 selector of
       None \<Rightarrow> (Inl (ElementNotFound selector), p0, [])
     | Some input \<Rightarrow>
        let (p1, t1) = (case activeElement br p0 of
                          None \<Rightarrow> (p0, [])
                        | Some a \<Rightarrow> (blur br a p0, [Blur a]));
            p2 = blur br input p1;
            p3 = click br (body br p2) p2;
            p4 = elapse br 200 p3;
            t4 = t1 @ [Blur input, Click (body br p2), Wait 200];
            inputBorderWidth = borderWidth (getComputedStyle br p4 input);
            borderElement =
              (if inputBorderWidth = str ''0px'' \<or> inputBorderWidth = str ''0''
               then parentElement br p4 input else Some input)
        in (case borderElement of
              None \<Rightarrow> (Inl TypeError, p4, t4 @ [ComputedStyle input])
            | Some be \<Rightarrow>
                let restingBorderColor = borderColor (getComputedStyle br p4 be);
                    borderWidth' = borderWidth (getComputedStyle br p4 be);
                    hexColor = vortexRgbToHex restingBorderColor
                in (Inr \<lparr>color = hexColor, element = descriptor br p4 be, width = borderWidth'\<rparr>,
                    p4, t4 @ [ComputedStyle input, ComputedStyle be, ComputedStyle be])))"

section \<open>The background resolver\<close>

text \<open>An entry of \<open>backgrounds\<close>: \<open>{level, color, element}\<close>.\<close>

record candidate =
  level :: nat
  cand_color :: jsstring
  cand_element :: elem

text \<open>\<open>s.includes('modal') || s.includes('dialog') || s.includes('form')\<close>\<close>

definition has_marker :: "jsstring \<Rightarrow> bool" where
  "has_marker s = (js_includes s (str ''modal'') \<or> js_includes s (str ''dialog'') \<or>
     js_includes s (str ''form''))"

text \<open>The state of the ancestor walk: \<open>current\<close>, \<open>backgrounds\<close>, \<open>modalElement\<close>, and the log
  of the computed-style reads.\<close>

record walk_state =
  current :: "elem option"
  backgrounds :: "candidate list"
  modalElement :: "elem option"
  reads :: "event list"

text \<open>The body of the loop \<open>for (let i = 0; i < 15; i++)\<close> at an element \<open>c\<close>.\<close>

definition walk_step :: "'p browser \<Rightarrow> 'p \<Rightarrow> nat \<Rightarrow> elem \<Rightarrow> walk_state \<Rightarrow> walk_state" where
  "walk_step br p i c w =
    (let bg = backgroundColor (getComputedStyle br p c);
         bgs = (if bg \<noteq> str ''rgba(0, 0, 0, 0)'' \<and> bg \<noteq> str ''transparent''
                then backgrounds w @ [\<lparr>level = i, cand_color = bg, cand_element = c\<rparr>]
                else backgrounds w);
         modal = (if modalElement w = None \<and>
                     (case className br p c of JStr cn \<Rightarrow> cn \<noteq> [] \<and> has_marker cn | JObj \<Rightarrow> False)
                  then Some c else modalElement w)
     in \<lparr>current = parentElement br p c, backgrounds = bgs, modalElement = modal,
         reads = reads w @ [ComputedStyle c]\<rparr>)"

function walk :: "'p browser \<Rightarrow> 'p \<Rightarrow> nat \<Rightarrow> walk_state \<Rightarrow> walk_state" where
  "walk br p i w =
    (if i < 15 then
       (case current w of None \<Rightarrow> w
        | Some c \<Rightarrow> walk br p (i + 1) (walk_step br p i c w))
     else w)"
  by pat_completeness auto
termination
  by (relation "measure (\<lambda>(br, p, i, w). 15 - i)") auto

declare walk.simps [simp del]

text \<open>The first capture of \<open>color.match(/,\s*([\d.]+)\)/)\<close>: the pattern is the optional
  group of the colour pattern followed by the bracket, at the leftmost position where it
  matches.\<close>

fun alpha_exec :: "jsstring \<Rightarrow> jsstring option" where
  "alpha_exec [] = match_alpha []"
| "alpha_exec (c # cs) = (case match_alpha (c # cs) of Some a \<Rightarrow> Some a | None \<Rightarrow> alpha_exec cs)"

text \<open>The test of both selection loops: the colour has no \<open>'rgba'\<close> in it, or its alpha
  (0 when the pattern does not match) is 1.\<close>

definition solid :: "jsstring \<Rightarrow> bool" where
  "solid c =
    (if \<not> js_includes c (str ''rgba'') then True
     else (case alpha_exec c of None \<Rightarrow> Finite 0 | Some t \<Rightarrow> parseFloat t) = Finite 1)"

text \<open>The test of the first loop on the element of a candidate.\<close>

definition is_container :: "'p browser \<Rightarrow> 'p \<Rightarrow> elem \<Rightarrow> bool" where
  "is_container br p el =
    (let className' = (case className br p el of JStr cn \<Rightarrow> cn | JObj \<Rightarrow> [])
     in has_marker className' \<or> tagName br p el = str ''DIALOG'' \<or>
        getAttribute_role br p el = Some (str ''dialog''))"

text \<open>The first loop, over \<open>backgrounds\<close> from index 0: the first candidate at a container
  element with a solid colour, when there is one.\<close>

fun first_loop :: "'p browser \<Rightarrow> 'p \<Rightarrow> candidate list \<Rightarrow> candidate option" where
  "first_loop br p [] = None"
| "first_loop br p (bg # rest) =
    (if is_container br p (cand_element bg) \<and> solid (cand_color bg) then Some bg
     else first_loop br p rest)"

text \<open>The second loop, over \<open>backgrounds\<close> from the last index down (the argument is the
  reversed list): \<open>body\<close> and \<open>html\<close> are skipped.\<close>

fun second_loop :: "'p browser \<Rightarrow> 'p \<Rightarrow> candidate list \<Rightarrow> candidate option" where
  "second_loop br p [] = None"
| "second_loop br p (bg # rest) =
    (let tagName' = toLowerCase (tagName br p (cand_element bg))
     in if tagName' = str ''body'' \<or> tagName' = str ''html'' then second_loop br p rest
        else if solid (cand_color bg) then Some bg
        else second_loop br p rest)"

text \<open>\<open>!formContainerBg\<close>: the variable is null or the empty string.\<close>

definition falsy :: "candidate option \<Rightarrow> bool" where
  "falsy sel = (case sel of None \<Rightarrow> True | Some c \<Rightarrow> cand_color c = [])"

text \<open>\<open>formContainerBg\<close> and \<open>containerElement\<close> are assigned together, from one candidate;
  the selection is that candidate.\<close>

definition select_candidate :: "'p browser \<Rightarrow> 'p \<Rightarrow> candidate list \<Rightarrow> candidate option" where
  "select_candidate br p bgs =
    (let sel = first_loop br p bgs;
         sel = (if falsy sel
                then (case second_loop br p (rev bgs) of Some c \<Rightarrow> Some c | None \<Rightarrow> sel)
                else sel);
         sel = (if falsy sel \<and> 0 < length bgs then Some (last bgs) else sel)
     in sel)"

text \<open>\<open>containerElement?.className || containerElement?.tagName || 'unknown'\<close>\<close>

definition container_descriptor :: "'p browser \<Rightarrow> 'p \<Rightarrow> elem \<Rightarrow> jsval" where
  "container_descriptor br p e =
     (if truthy (className br p e) then className br p e
      else if tagName br p e \<noteq> [] then JStr (tagName br p e)
      else JStr (str ''unknown''))"

definition vortexExtractFormContainerBackground ::
  "'p browser \<Rightarrow> 'p \<Rightarrow> jsstring \<Rightarrow> (error + container_result) \<times> 'p \<times> event list" where
  "vortexExtractFormContainerBackground br p inputSelector =
    (case querySelector br p inputSelector of
       None \<Rightarrow> (Inl (ElementNotFound inputSelector), p, [])
     | Some input \<Rightarrow>
        let w = walk br p 0 \<lparr>current = Some input, backgrounds = [], modalElement = None, reads = []\<rparr>;
            sel = select_candidate br p (backgrounds w)
        in if falsy sel then (Inl ContainerNotFound, p, reads w)
           else (case sel of
                   None \<Rightarrow> (Inl ContainerNotFound, p, reads w)
                 | Some c \<Rightarrow>
                     (Inr \<lparr>color = vortexRgbToHex (cand_color c),
                           element = container_descriptor br p (cand_element c)\<rparr>,
                      p, reads w)))"

section \<open>The page of the test suite\<close>

text \<open>
  The page that \<open>tests/test-utils.spec.js\<close> loads, as a rendering engine for the examples
  below: \<open>html\<close> (0), \<open>body\<close> (1), \<open>div.modal\<close> (2) with a white background, and the email
  input (3) with a transparent background, a 2px border of colour \<open>#ebe6df\<close> and, while
  it has the focus, of colour \<open>#03d47c\<close>; the border colour takes \<open>transition\<close> time units
  to change after the input has lost the focus (0.2s in the test). The page state is
  the focused element and the time since the input lost the focus.
\<close>

record page =
  focused :: "elem option"
  since_blur :: nat

definition test_style :: "nat \<Rightarrow> page \<Rightarrow> elem \<Rightarrow> computed_style" where
  "test_style transition p e =
    (if e = 3 then
       \<lparr>borderWidth = str ''2px'',
        borderColor = (if focused p = Some 3 \<or> since_blur p < transition
                       then str ''rgb(3, 212, 124)'' else str ''rgb(235, 230, 223)''),
        backgroundColor = str ''rgba(0, 0, 0, 0)''\<rparr>
     else if e = 2 then
       \<lparr>borderWidth = str ''0px'', borderColor = str ''rgb(0, 0, 0)'',
        backgroundColor = str ''rgb(255, 255, 255)''\<rparr>
     else
       \<lparr>borderWidth = str ''0px'', borderColor = str ''rgb(0, 0, 0)'',
        backgroundColor = str ''rgba(0, 0, 0, 0)''\<rparr>)"

definition test_browser :: "nat \<Rightarrow> page browser" where
  "test_browser transition =
    \<lparr>querySelector = (\<lambda>p sel. if sel = str ''input[type=email]'' then Some 3
                                else if sel = str ''.modal'' then Some 2
                                else if sel = str ''html'' then Some 0 else None),
     activeElement = (\<lambda>p. case focused p of None \<Rightarrow> Some 1 | Some e \<Rightarrow> Some e),
     body = (\<lambda>p. 1),
     blur = (\<lambda>e p. if focused p = Some e then \<lparr>focused = None, since_blur = 0\<rparr> else p),
     click = (\<lambda>e p. p),
     elapse = (\<lambda>n p. p\<lparr>since_blur := since_blur p + n\<rparr>),
     getComputedStyle = test_style transition,
     parentElement = (\<lambda>p e. if e = 0 then None else Some (e - 1)),
     className = (\<lambda>p e. if e = 2 then JStr (str ''modal'') else JStr []),
     tagName = (\<lambda>p e. if e = 0 then str ''HTML'' else if e = 1 then str ''BODY''
                         else if e = 2 then str ''DIV'' else str ''INPUT''),
     getAttribute_role = (\<lambda>p e. None)\<rparr>"

text \<open>
  A variant of the page in which the border is drawn by a wrapper: \<open>div.field\<close> (2) has a
  1px border of colour \<open>#cccccc\<close> and the input (3) has no border of its own.
\<close>

definition wrapped_style :: "page \<Rightarrow> elem \<Rightarrow> computed_style" where
  "wrapped_style p e =
    (if e = 2 then
       \<lparr>borderWidth = str ''1px'', borderColor = str ''rgb(204, 204, 204)'',
        backgroundColor = str ''rgba(0, 0, 0, 0)''\<rparr>
     else
       \<lparr>borderWidth = str ''0px'', borderColor = str ''rgb(0, 0, 0)'',
        backgroundColor = str ''rgba(0, 0, 0, 0)''\<rparr>)"

definition wrapped_browser :: "page browser" where
  "wrapped_browser =
    (test_browser 200)\<lparr>getComputedStyle := wrapped_style,
      className := (\<lambda>p e. if e = 2 then JStr (str ''field'') else JStr [])\<rparr>"

text \<open>
  A page with a dialog inside a solid wrapper: \<open>html\<close> (0), \<open>body\<close> (1), \<open>div.page\<close> (2)
  with a light grey background, \<open>div.dialog\<close> (3) with a white background, and the
  input (4), transparent.
\<close>

definition dialog_style :: "page \<Rightarrow> elem \<Rightarrow> computed_style" where
  "dialog_style p e =
    \<lparr>borderWidth = str ''0px'', borderColor = str ''rgb(0, 0, 0)'',
     backgroundColor = (if e = 2 then str ''rgb(240, 240, 240)''
                        else if e = 3 then str ''rgb(255, 255, 255)''
                        else str ''rgba(0, 0, 0, 0)'')\<rparr>"

definition dialog_browser :: "page browser" where
  "dialog_browser =
    (test_browser 200)\<lparr>
      querySelector := (\<lambda>p sel. if sel = str ''input[type=email]'' then Some 4 else None),
      getComputedStyle := dialog_style,
      className := (\<lambda>p e. if e = 2 then JStr (str ''page'') else if e = 3 then JStr (str ''dialog'')
                            else JStr []),
      tagName := (\<lambda>p e. if e = 0 then str ''HTML'' else if e = 1 then str ''BODY''
                          else if e = 4 then str ''INPUT'' else str ''DIV'')\<rparr>"

text \<open>
  A page with three layers behind the input: \<open>body\<close> (1) with a white background,
  \<open>div.overlay\<close> (2) with a half-transparent black one, \<open>div.box\<close> (3) with a solid
  off-white one, and the input (4), transparent.
\<close>

definition layers_style :: "page \<Rightarrow> elem \<Rightarrow> computed_style" where
  "layers_style p e =
    \<lparr>borderWidth = str ''0px'', borderColor = str ''rgb(0, 0, 0)'',
     backgroundColor = (if e = 1 then str ''rgb(255, 255, 255)''
                        else if e = 2 then str ''rgba(0, 0, 0, 0.5)''
                        else if e = 3 then str ''rgb(250, 250, 250)''
                        else str ''rgba(0, 0, 0, 0)'')\<rparr>"

definition layers_browser :: "page browser" where
  "layers_browser =
    dialog_browser\<lparr>getComputedStyle := layers_style,
      className := (\<lambda>p e. if e = 2 then JStr (str ''overlay'') else if e = 3 then JStr (str ''box'')
                            else JStr [])\<rparr>"

text \<open>
  A page with a tint in a colour syntax other than \<open>rgb()\<close>: \<open>div.tint\<close> (2) has the
  background \<open>oklch(0.7 0.1 200 / 0.5)\<close>, of alpha 0.5, as the rendering engine reports a
  colour given in that syntax; \<open>div.panel\<close> (3) has a white background; the input (4) is
  transparent.
\<close>

definition tint_style :: "page \<Rightarrow> elem \<Rightarrow> computed_style" where
  "tint_style p e =
    \<lparr>borderWidth = str ''0px'', borderColor = str ''rgb(0, 0, 0)'',
     backgroundColor = (if e = 2 then str ''oklch(0.7 0.1 200 / 0.5)''
                        else if e = 3 then str ''rgb(255, 255, 255)''
                        else str ''rgba(0, 0, 0, 0)'')\<rparr>"

definition tint_browser :: "page browser" where
  "tint_browser =
    dialog_browser\<lparr>getComputedStyle := tint_style,
      className := (\<lambda>p e. if e = 2 then JStr (str ''tint'') else if e = 3 then JStr (str ''panel'')
                            else JStr [])\<rparr>"

text \<open>
  A page with a card inside a modal inside a coloured wrapper: \<open>html\<close> (0), \<open>body\<close> (1),
  \<open>div.app\<close> (2) with a red background, \<open>div.modal\<close> (3) with a transparent background,
  \<open>div.card\<close> (4) with a white background, and the input (5), transparent.
\<close>

definition nested_style :: "page \<Rightarrow> elem \<Rightarrow> computed_style" where
  "nested_style p e =
    \<lparr>borderWidth = str ''0px'', borderColor = str ''rgb(0, 0, 0)'',
     backgroundColor = (if e = 2 then str ''rgb(255, 0, 0)''
                        else if e = 4 then str ''rgb(255, 255, 255)''
                        else str ''rgba(0, 0, 0, 0)'')\<rparr>"

definition nested_browser :: "page browser" where
  "nested_browser =
    (test_browser 200)\<lparr>
      querySelector := (\<lambda>p sel. if sel = str ''input[type=email]'' then Some 5 else None),
      getComputedStyle := nested_style,
      className := (\<lambda>p e. if e = 2 then JStr (str ''app'') else if e = 3 then JStr (str ''modal'')
                            else if e = 4 then JStr (str ''card'') else JStr []),
      tagName := (\<lambda>p e. if e = 0 then str ''HTML'' else if e = 1 then str ''BODY''
                          else if e = 5 then str ''INPUT'' else str ''DIV'')\<rparr>"

text \<open>
  A page with a translucent overlay: \<open>body\<close> (1) has a white background, the \<open>div\<close> (2)
  around the input a half-transparent black one; no element has a class.
\<close>

definition overlay_style :: "page \<Rightarrow> elem \<Rightarrow> computed_style" where
  "overlay_style p e =
    \<lparr>borderWidth = str ''0px'', borderColor = str ''rgb(0, 0, 0)'',
     backgroundColor = (if e = 1 then str ''rgb(255, 255, 255)''
                        else if e = 2 then str ''rgba(0, 0, 0, 0.5)''
                        else str ''rgba(0, 0, 0, 0)'')\<rparr>"

definition overlay_browser :: "page browser" where
  "overlay_browser =
    (test_browser 200)\<lparr>getComputedStyle := overlay_style, className := (\<lambda>p e. JStr [])\<rparr>"

section \<open>Notions of the specification\<close>

text \<open>
  The focus-clearing steps of the resting border extractor, as the specification lists
  them: the element that holds the focus, if any, is defocused, then the target, then
  the body is activated; the call then suspends for 200 time units. \<open>defocus\<close> is the
  page after the first three steps, \<open>settle\<close> the page when the call resumes, and
  \<open>defocus_log\<close> the effects of the three steps.
\<close>

definition defocus :: "'p browser \<Rightarrow> 'p \<Rightarrow> elem \<Rightarrow> 'p" where
  "defocus br p input =
    (let p1 = (case activeElement br p of None \<Rightarrow> p | Some a \<Rightarrow> blur br a p);
         p2 = blur br input p1
     in click br (body br p2) p2)"

definition settle :: "'p browser \<Rightarrow> 'p \<Rightarrow> elem \<Rightarrow> 'p" where
  "settle br p input = elapse br 200 (defocus br p input)"

definition defocus_log :: "'p browser \<Rightarrow> 'p \<Rightarrow> elem \<Rightarrow> event list" where
  "defocus_log br p input =
    (case activeElement br p of
       None \<Rightarrow> [Blur input, Click (body br (blur br input p))]
     | Some a \<Rightarrow> [Blur a, Blur input, Click (body br (blur br input (blur br a p)))])"

fun is_read :: "event \<Rightarrow> bool" where
  "is_read (ComputedStyle e) = True"
| "is_read _ = False"

text \<open>A computed border width that is zero.\<close>

definition zero_width :: "jsstring \<Rightarrow> bool" where
  "zero_width w = (w = str ''0px'' \<or> w = str ''0'')"

text \<open>
  The ancestor walk, as the specification describes it. \<open>chain br p n e\<close> is \<open>e\<close> followed
  by its ancestors, \<open>n\<close> elements at most. A background is transparent when it is one of
  the two canonical forms. \<open>recorded\<close> lists the candidates of the walk over the target
  and up to 14 ancestors: one for each element whose background is not transparent, with
  its depth.
\<close>

fun chain :: "'p browser \<Rightarrow> 'p \<Rightarrow> nat \<Rightarrow> elem \<Rightarrow> elem list" where
  "chain br p 0 e = []"
| "chain br p (Suc n) e =
     e # (case parentElement br p e of None \<Rightarrow> [] | Some q \<Rightarrow> chain br p n q)"

definition is_transparent :: "jsstring \<Rightarrow> bool" where
  "is_transparent bg = (bg = str ''rgba(0, 0, 0, 0)'' \<or> bg = str ''transparent'')"

fun record_from :: "'p browser \<Rightarrow> 'p \<Rightarrow> nat \<Rightarrow> elem list \<Rightarrow> candidate list" where
  "record_from br p i [] = []"
| "record_from br p i (e # es) =
     (if is_transparent (backgroundColor (getComputedStyle br p e)) then []
      else [\<lparr>level = i, cand_color = backgroundColor (getComputedStyle br p e), cand_element = e\<rparr>])
     @ record_from br p (i + 1) es"

definition recorded :: "'p browser \<Rightarrow> 'p \<Rightarrow> elem \<Rightarrow> candidate list" where
  "recorded br p input = record_from br p 0 (chain br p 15 input)"

text \<open>
  The colour sample of the specification: the text \<open>rgb(r, g, b)\<close> or \<open>rgba(r, g, b, a)\<close>
  that the rendering engine reports, with decimal channels and, in the second form, a
  decimal alpha between 0 and 1, written with an integer part and up to 15 digits after
  the point (none and no point when \<open>fp\<close> is empty). A sample is solid when it has no
  alpha channel or its alpha is exactly 1; a colour string is a solid colour when it is
  the text of a solid sample.
\<close>

datatype color_sample =
  Rgb jsstring jsstring jsstring
| Rgba jsstring jsstring jsstring jsstring jsstring

definition digits :: "jsstring \<Rightarrow> bool" where
  "digits s = (s \<noteq> [] \<and> list_all is_digit s)"

definition alpha_text :: "jsstring \<Rightarrow> jsstring \<Rightarrow> jsstring" where
  "alpha_text ip fp = (if fp = [] then ip else ip @ str ''.'' @ fp)"

definition alpha_value :: "jsstring \<Rightarrow> jsstring \<Rightarrow> rat" where
  "alpha_value ip fp = of_nat (dec ip) + of_nat (dec fp) / 10 ^ length fp"

fun wf_sample :: "color_sample \<Rightarrow> bool" where
  "wf_sample (Rgb r g b) = (digits r \<and> digits g \<and> digits b)"
| "wf_sample (Rgba r g b ip fp) =
     (digits r \<and> digits g \<and> digits b \<and> digits ip \<and> list_all is_digit fp \<and>
      length fp \<le> 15 \<and> alpha_value ip fp \<le> 1)"

fun sample_text :: "color_sample \<Rightarrow> jsstring" where
  "sample_text (Rgb r g b) =
     str ''rgb('' @ r @ str '', '' @ g @ str '', '' @ b @ str '')''"
| "sample_text (Rgba r g b ip fp) =
     str ''rgba('' @ r @ str '', '' @ g @ str '', '' @ b @ str '', '' @ alpha_text ip fp @ str '')''"

fun sample_solid :: "color_sample \<Rightarrow> bool" where
  "sample_solid (Rgb r g b) = True"
| "sample_solid (Rgba r g b ip fp) = (alpha_value ip fp = 1)"

definition is_sample :: "jsstring \<Rightarrow> bool" where
  "is_sample c = (\<exists>cs. wf_sample cs \<and> c = sample_text cs)"

definition solid_color :: "jsstring \<Rightarrow> bool" where
  "solid_color c = (\<exists>cs. wf_sample cs \<and> c = sample_text cs \<and> sample_solid cs)"

text \<open>
  The tests that the two selection loops of the source make on a candidate.
\<close>

definition first_loop_test :: "'p browser \<Rightarrow> 'p \<Rightarrow> candidate \<Rightarrow> bool" where
  "first_loop_test br p c = (is_container br p (cand_element c) \<and> solid (cand_color c))"

definition is_page_root :: "'p browser \<Rightarrow> 'p \<Rightarrow> elem \<Rightarrow> bool" where
  "is_page_root br p e = (toLowerCase (tagName br p e) = str ''body'' \<or>
     toLowerCase (tagName br p e) = str ''html'')"

definition second_loop_test :: "'p browser \<Rightarrow> 'p \<Rightarrow> candidate \<Rightarrow> bool" where
  "second_loop_test br p c = (\<not> is_page_root br p (cand_element c) \<and> solid (cand_color c))"

text \<open>
  The rules of the selection, as the specification states them. A candidate satisfies
  the container rule when its own element is a semantic container and its colour is a
  solid colour; it satisfies the fallback rule when its element is not \<open>body\<close> or \<open>html\<close>
  and its colour is a solid colour. An element is within a container when it or one of
  its ancestors is one. \<open>result_of\<close> is the object returned for a selected candidate.
\<close>

definition container_rule :: "'p browser \<Rightarrow> 'p \<Rightarrow> candidate \<Rightarrow> bool" where
  "container_rule br p c = (is_container br p (cand_element c) \<and> solid_color (cand_color c))"

definition fallback_rule :: "'p browser \<Rightarrow> 'p \<Rightarrow> candidate \<Rightarrow> bool" where
  "fallback_rule br p c = (\<not> is_page_root br p (cand_element c) \<and> solid_color (cand_color c))"

definition within_container :: "'p browser \<Rightarrow> 'p \<Rightarrow> elem \<Rightarrow> bool" where
  "within_container br p e = list_ex (is_container br p) (chain br p 15 e)"

definition result_of :: "'p browser \<Rightarrow> 'p \<Rightarrow> candidate \<Rightarrow> container_result" where
  "result_of br p c =
    \<lparr>color = vortexRgbToHex (cand_color c), element = container_descriptor br p (cand_element c)\<rparr>"

text \<open>
  The canonical colour of the specification: two upper-case hexadecimal digits for a
  byte, and the alpha byte \<open>round(a * 255)\<close> of an alpha that is a Number.
\<close>

definition upper_hex_digit :: "nat \<Rightarrow> nat" where
  "upper_hex_digit d = (if d < 10 then 48 + d else 55 + d)"

definition hex2 :: "nat \<Rightarrow> jsstring" where
  "hex2 n = [upper_hex_digit (n div 16), upper_hex_digit (n mod 16)]"

definition is_upper_hex :: "nat \<Rightarrow> bool" where
  "is_upper_hex c = ((48 \<le> c \<and> c \<le> 57) \<or> (65 \<le> c \<and> c \<le> 70))"

definition alpha_byte :: "number \<Rightarrow> nat" where
  "alpha_byte a = (case Math_round (num_mul a (Finite 255)) of Finite x \<Rightarrow> nat \<lfloor>x\<rfloor> | _ \<Rightarrow> 0)"

section \<open>Evaluation lemmas\<close>

lemma floor_rat_numeral [simp]: "\<lfloor>(numeral a / numeral b :: rat)\<rfloor> = numeral a div numeral b"
  by (metis floor_divide_of_int_eq of_int_numeral)

lemmas num_eval = rnd_def expo_def ilog2.simps round_even_def pow2_def Let_def
lemmas str_eval = str_def is_digit_def is_space_def is_digit_or_dot_def toUpperCase_def padStart2_def
  hex_digit_def hex_of_nat.simps digit_val_def dec_def parseInt_def parseFloat_def
  match_alpha_def match_channel_def match_sep_def match_here_def toHex_def alpha_of_def vortexRgbToHex_def

lemma str_inj [simp]: "str s = str t \<longleftrightarrow> s = t"
  by (simp add: str_def inj_map_eq_map inj_on_def)

lemma str_Nil_iff [simp]: "str s = [] \<longleftrightarrow> s = []"
  by (simp add: str_def)

lemma rgb_resting: "vortexRgbToHex (str ''rgb(235, 230, 223)'') = str ''#EBE6DF''"
  by (simp add: str_eval num_eval)

lemma rgb_focused: "vortexRgbToHex (str ''rgb(3, 212, 124)'') = str ''#03D47C''"
  by (simp add: str_eval num_eval)

lemma rgb_wrapper: "vortexRgbToHex (str ''rgb(204, 204, 204)'') = str ''#CCCCCC''"
  by (simp add: str_eval num_eval)

lemma test_browser_fields [simp]:
  "querySelector (test_browser t) p sel =
     (if sel = str ''input[type=email]'' then Some 3 else if sel = str ''.modal'' then Some 2
      else if sel = str ''html'' then Some 0 else None)"
  "activeElement (test_browser t) p = (case focused p of None \<Rightarrow> Some 1 | Some e \<Rightarrow> Some e)"
  "body (test_browser t) p = 1"
  "blur (test_browser t) e p = (if focused p = Some e then \<lparr>focused = None, since_blur = 0\<rparr> else p)"
  "click (test_browser t) e p = p"
  "elapse (test_browser t) n p = p\<lparr>since_blur := since_blur p + n\<rparr>"
  "getComputedStyle (test_browser t) = test_style t"
  "parentElement (test_browser t) p e = (if e = 0 then None else Some (e - 1))"
  "className (test_browser t) p e = (if e = 2 then JStr (str ''modal'') else JStr [])"
  "tagName (test_browser t) p e = (if e = 0 then str ''HTML'' else if e = 1 then str ''BODY''
                         else if e = 2 then str ''DIV'' else str ''INPUT'')"
  "getAttribute_role (test_browser t) p e = None"
  by (simp_all add: test_browser_def)

lemma wrapped_browser_fields [simp]:
  "querySelector wrapped_browser = querySelector (test_browser 200)"
  "activeElement wrapped_browser = activeElement (test_browser 200)"
  "body wrapped_browser = body (test_browser 200)"
  "blur wrapped_browser = blur (test_browser 200)"
  "click wrapped_browser = click (test_browser 200)"
  "elapse wrapped_browser = elapse (test_browser 200)"
  "getComputedStyle wrapped_browser = wrapped_style"
  "parentElement wrapped_browser = parentElement (test_browser 200)"
  "className wrapped_browser p e = (if e = 2 then JStr (str ''field'') else JStr [])"
  "tagName wrapped_browser = tagName (test_browser 200)"
  "getAttribute_role wrapped_browser = getAttribute_role (test_browser 200)"
  by (simp_all add: wrapped_browser_def)

lemma test_settle:
  "settle (test_browser t) \<lparr>focused = Some 3, since_blur = n\<rparr> 3 = \<lparr>focused = None, since_blur = 200\<rparr>"
  by (simp add: settle_def defocus_def)

lemma test_settle_root:
  "settle (test_browser t) \<lparr>focused = Some 3, since_blur = n\<rparr> 0 = \<lparr>focused = None, since_blur = 200\<rparr>"
  by (simp add: settle_def defocus_def)

lemma wrapped_settle:
  "settle wrapped_browser \<lparr>focused = Some 3, since_blur = n\<rparr> 3 = \<lparr>focused = None, since_blur = 200\<rparr>"
  by (simp add: settle_def defocus_def)

lemma chain_unfold:
  "0 < n \<Longrightarrow> chain br p n e =
     e # (case parentElement br p e of None \<Rightarrow> [] | Some q \<Rightarrow> chain br p (n - 1) q)"
  by (cases n) (auto split: option.splits)

lemma dialog_browser_fields [simp]:
  "querySelector dialog_browser p sel = (if sel = str ''input[type=email]'' then Some 4 else None)"
  "getComputedStyle dialog_browser = dialog_style"
  "parentElement dialog_browser = parentElement (test_browser 200)"
  "className dialog_browser p e = (if e = 2 then JStr (str ''page'') else if e = 3 then JStr (str ''dialog'')
                            else JStr [])"
  "tagName dialog_browser p e = (if e = 0 then str ''HTML'' else if e = 1 then str ''BODY''
                          else if e = 4 then str ''INPUT'' else str ''DIV'')"
  "getAttribute_role dialog_browser = getAttribute_role (test_browser 200)"
  by (simp_all add: dialog_browser_def)

lemma layers_browser_fields [simp]:
  "querySelector layers_browser = querySelector dialog_browser"
  "getComputedStyle layers_browser = layers_style"
  "parentElement layers_browser = parentElement dialog_browser"
  "className layers_browser p e = (if e = 2 then JStr (str ''overlay'') else if e = 3 then JStr (str ''box'')
                            else JStr [])"
  "tagName layers_browser = tagName dialog_browser"
  "getAttribute_role layers_browser = getAttribute_role dialog_browser"
  by (simp_all add: layers_browser_def)

lemma tint_browser_fields [simp]:
  "querySelector tint_browser = querySelector dialog_browser"
  "getComputedStyle tint_browser = tint_style"
  "parentElement tint_browser = parentElement dialog_browser"
  "className tint_browser p e = (if e = 2 then JStr (str ''tint'') else if e = 3 then JStr (str ''panel'')
                            else JStr [])"
  "tagName tint_browser = tagName dialog_browser"
  "getAttribute_role tint_browser = getAttribute_role dialog_browser"
  by (simp_all add: tint_browser_def)

lemma nested_browser_fields [simp]:
  "querySelector nested_browser p sel = (if sel = str ''input[type=email]'' then Some 5 else None)"
  "getComputedStyle nested_browser = nested_style"
  "parentElement nested_browser = parentElement (test_browser 200)"
  "className nested_browser p e = (if e = 2 then JStr (str ''app'') else if e = 3 then JStr (str ''modal'')
                            else if e = 4 then JStr (str ''card'') else JStr [])"
  "tagName nested_browser p e = (if e = 0 then str ''HTML'' else if e = 1 then str ''BODY''
                          else if e = 5 then str ''INPUT'' else str ''DIV'')"
  "getAttribute_role nested_browser = getAttribute_role (test_browser 200)"
  by (simp_all add: nested_browser_def)

lemma overlay_browser_fields [simp]:
  "querySelector overlay_browser = querySelector (test_browser 200)"
  "getComputedStyle overlay_browser = overlay_style"
  "parentElement overlay_browser = parentElement (test_browser 200)"
  "className overlay_browser p e = JStr []"
  "tagName overlay_browser = tagName (test_browser 200)"
  "getAttribute_role overlay_browser = getAttribute_role (test_browser 200)"
  by (simp_all add: overlay_browser_def)

lemma solid_white: "solid (str ''rgb(255, 255, 255)'')"
  by (simp add: solid_def str_def)

lemma solid_red: "solid (str ''rgb(255, 0, 0)'')"
  by (simp add: solid_def str_def)

lemma half_alpha: "alpha_exec (str ''rgba(0, 0, 0, 0.5)'') = Some (str ''0.5'')"
  by (simp add: str_def match_alpha_def is_space_def is_digit_or_dot_def is_digit_def)

lemma half_value: "parseFloat (str ''0.5'') = Finite (1 / 2)"
  by (simp add: str_eval) (simp add: num_eval)

lemma half_rgba: "js_includes (str ''rgba(0, 0, 0, 0.5)'') (str ''rgba'')"
  by (simp add: str_def)

lemma not_solid_half: "\<not> solid (str ''rgba(0, 0, 0, 0.5)'')"
  by (simp add: solid_def half_rgba half_alpha half_value)

lemma marker_dialog: "has_marker (str ''dialog'')" "has_marker (str ''modal'')"
  "\<not> has_marker (str ''card'')" "\<not> has_marker (str ''app'')" "\<not> has_marker []"
  "\<not> has_marker (str ''page'')" "\<not> has_marker (str ''overlay'')" "\<not> has_marker (str ''box'')"
  "\<not> has_marker (str ''tint'')" "\<not> has_marker (str ''panel'')"
  by (simp_all add: has_marker_def str_def)

lemma rgb_white: "vortexRgbToHex (str ''rgb(255, 255, 255)'') = str ''#FFFFFF''"
  by (simp add: str_eval num_eval)

lemma rgb_red: "vortexRgbToHex (str ''rgb(255, 0, 0)'') = str ''#FF0000''"
  by (simp add: str_eval num_eval)

lemma rgb_grey: "vortexRgbToHex (str ''rgb(240, 240, 240)'') = str ''#F0F0F0''"
  by (simp add: str_eval num_eval)

lemma rgb_offwhite: "vortexRgbToHex (str ''rgb(250, 250, 250)'') = str ''#FAFAFA''"
  by (simp add: str_eval num_eval)

lemma dialog_recorded:
  "recorded dialog_browser p 4 =
     [\<lparr>level = 1, cand_color = str ''rgb(255, 255, 255)'', cand_element = 3\<rparr>,
      \<lparr>level = 2, cand_color = str ''rgb(240, 240, 240)'', cand_element = 2\<rparr>]"
  by (simp add: recorded_def chain_unfold dialog_style_def is_transparent_def)

lemma layers_recorded:
  "recorded layers_browser p 4 =
     [\<lparr>level = 1, cand_color = str ''rgb(250, 250, 250)'', cand_element = 3\<rparr>,
      \<lparr>level = 2, cand_color = str ''rgba(0, 0, 0, 0.5)'', cand_element = 2\<rparr>,
      \<lparr>level = 3, cand_color = str ''rgb(255, 255, 255)'', cand_element = 1\<rparr>]"
  by (simp add: recorded_def chain_unfold layers_style_def is_transparent_def)

lemma tint_recorded:
  "recorded tint_browser p 4 =
     [\<lparr>level = 1, cand_color = str ''rgb(255, 255, 255)'', cand_element = 3\<rparr>,
      \<lparr>level = 2, cand_color = str ''oklch(0.7 0.1 200 / 0.5)'', cand_element = 2\<rparr>]"
  by (simp add: recorded_def chain_unfold tint_style_def is_transparent_def)

lemma nested_recorded:
  "recorded nested_browser p 5 =
     [\<lparr>level = 1, cand_color = str ''rgb(255, 255, 255)'', cand_element = 4\<rparr>,
      \<lparr>level = 3, cand_color = str ''rgb(255, 0, 0)'', cand_element = 2\<rparr>]"
  by (simp add: recorded_def chain_unfold nested_style_def is_transparent_def)

lemma overlay_recorded:
  "recorded overlay_browser p 3 =
     [\<lparr>level = 1, cand_color = str ''rgba(0, 0, 0, 0.5)'', cand_element = 2\<rparr>,
      \<lparr>level = 2, cand_color = str ''rgb(255, 255, 255)'', cand_element = 1\<rparr>]"
  by (simp add: recorded_def chain_unfold overlay_style_def is_transparent_def)

lemma wrapped_chain: "chain wrapped_browser p 15 3 = [3, 2, 1, 0]"
  by (simp add: chain_unfold)


lemma test_walk:
  "walk (test_browser t) p 0 \<lparr>current = Some 3, backgrounds = [], modalElement = None, reads = []\<rparr> =
     \<lparr>current = None,
      backgrounds = [\<lparr>level = 1, cand_color = str ''rgb(255, 255, 255)'', cand_element = 2\<rparr>],
      modalElement = Some 2,
      reads = [ComputedStyle 3, ComputedStyle 2, ComputedStyle 1, ComputedStyle 0]\<rparr>"
  by (simp add: walk.simps walk_step_def test_style_def marker_dialog Let_def)

lemma test_container_call:
  "vortexExtractFormContainerBackground (test_browser t) p (str ''input[type=email]'') =
     (Inr \<lparr>color = str ''#FFFFFF'', element = JStr (str ''modal'')\<rparr>, p,
      [ComputedStyle 3, ComputedStyle 2, ComputedStyle 1, ComputedStyle 0])"
  by (simp add: vortexExtractFormContainerBackground_def test_walk select_candidate_def falsy_def
      is_container_def marker_dialog solid_white container_descriptor_def rgb_white Let_def)

lemma page_roots:
  "is_page_root (test_browser t) p e \<longleftrightarrow> e = 0 \<or> e = 1"
  "is_page_root nested_browser p e \<longleftrightarrow> e = 0 \<or> e = 1"
  "is_page_root dialog_browser p e \<longleftrightarrow> e = 0 \<or> e = 1"
  "is_page_root layers_browser p e \<longleftrightarrow> e = 0 \<or> e = 1"
  "is_page_root tint_browser p e \<longleftrightarrow> e = 0 \<or> e = 1"
  by (simp_all add: is_page_root_def toLowerCase_def str_def)

lemma nested_containers:
  "is_container nested_browser p e \<longleftrightarrow> e = 3"
  by (simp add: is_container_def marker_dialog)

lemma overlay_containers:
  "\<not> is_container overlay_browser p e"
  by (simp add: is_container_def marker_dialog)

lemma dialog_containers:
  "is_container dialog_browser p e \<longleftrightarrow> e = 3"
  by (simp add: is_container_def marker_dialog)

lemma layers_containers: "\<not> is_container layers_browser p e"
  by (simp add: is_container_def marker_dialog)

lemma tint_containers: "\<not> is_container tint_browser p e"
  by (simp add: is_container_def marker_dialog)

lemma solid_oklch: "solid (str ''oklch(0.7 0.1 200 / 0.5)'')"
  by (simp add: solid_def str_def)

lemma rgb_oklch:
  "vortexRgbToHex (str ''oklch(0.7 0.1 200 / 0.5)'') = str ''oklch(0.7 0.1 200 / 0.5)''"
  by (simp add: vortexRgbToHex_def match_here_def str_def)

lemma overlay_roots: "is_page_root overlay_browser p e \<longleftrightarrow> e = 0 \<or> e = 1"
  by (simp add: is_page_root_def toLowerCase_def str_def)

lemma wrapped_all_transparent:
  "is_transparent (backgroundColor (wrapped_style p e))"
  by (simp add: wrapped_style_def is_transparent_def)

lemma wrapped_recorded: "recorded wrapped_browser p 3 = []"
  by (simp add: recorded_def chain_unfold wrapped_all_transparent)


section \<open>Properties of the rounding\<close>

lemma pow2_powi: "pow2 k = 2 powi k"
  by (simp add: pow2_def power_int_def field_simps)

lemma pow2_pos: "0 < pow2 k"
  by (simp add: pow2_powi)

lemma pow2_mono: "j \<le> k \<Longrightarrow> pow2 j \<le> pow2 k"
  by (simp add: pow2_powi power_int_increasing)

lemma pow2_less_exp: "pow2 j < pow2 k \<Longrightarrow> j < k"
proof (rule ccontr)
  assume a: "pow2 j < pow2 k" "\<not> j < k"
  then have "pow2 k \<le> pow2 j" by (simp add: pow2_mono)
  with a show False by simp
qed

lemma pow2_Suc: "pow2 (k + 1) = 2 * pow2 k"
  by (simp add: pow2_powi power_int_add_1)

lemma pow2_pred: "pow2 (k - 1) = pow2 k / 2"
  using pow2_Suc [of "k - 1"] by simp

lemma pow2_neg_nat: "k \<le> 0 \<Longrightarrow> pow2 k = 1 / 2 ^ nat (- k)"
  by (cases "k = 0") (simp_all add: pow2_def)

lemma ilog2_bounds:
  "0 < q \<Longrightarrow> pow2 (ilog2 q) \<le> q \<and> q < pow2 (ilog2 q + 1)"
proof (induction q rule: ilog2.induct)
  case (1 q)
  show ?case
  proof (cases "2 \<le> q")
    case True
    define k where "k = ilog2 (q / 2)"
    have v: "ilog2 q = k + 1"
      using True "1.prems" by (simp add: ilog2.simps [of q] k_def)
    have "pow2 k \<le> q / 2 \<and> q / 2 < pow2 (k + 1)"
      using "1.IH"(1) True "1.prems" by (simp add: k_def)
    then have "2 * pow2 k \<le> q \<and> q < 2 * pow2 (k + 1)" by simp
    then show ?thesis
      unfolding v pow2_Suc [of "k + 1"] pow2_Suc [of k] by simp
  next
    case False
    show ?thesis
    proof (cases "q < 1")
      case True
      define k where "k = ilog2 (q * 2)"
      have v: "ilog2 q = k - 1"
        using True False "1.prems" by (simp add: ilog2.simps [of q] k_def)
      have "pow2 k \<le> q * 2 \<and> q * 2 < pow2 (k + 1)"
        using "1.IH"(2) False True "1.prems" by (simp add: k_def)
      then have "pow2 k / 2 \<le> q \<and> q < pow2 k" by (simp add: pow2_Suc)
      then show ?thesis
        unfolding v pow2_pred by simp
    next
      case n1: False
      then have "ilog2 q = 0"
        using False "1.prems" by (simp add: ilog2.simps [of q])
      then show ?thesis using False n1 by (simp add: pow2_def)
    qed
  qed
qed

lemma ilog2_upper: "0 < q \<Longrightarrow> q < pow2 k \<Longrightarrow> ilog2 q < k"
  using ilog2_bounds [of q] pow2_less_exp [of "ilog2 q" k] by simp

lemma ilog2_lower: "pow2 k \<le> q \<Longrightarrow> k \<le> ilog2 q"
proof -
  assume a: "pow2 k \<le> q"
  then have q: "0 < q" using pow2_pos [of k] by simp
  have "pow2 k < pow2 (ilog2 q + 1)" using a ilog2_bounds [OF q] by simp
  then have "k < ilog2 q + 1" by (rule pow2_less_exp)
  then show ?thesis by simp
qed

lemma expo_upper: "\<bar>q\<bar> < pow2 k \<Longrightarrow> 0 < k \<Longrightarrow> expo q < k"
proof (cases "q = 0")
  case True
  assume "0 < k"
  then show ?thesis using True by (simp add: expo_def ilog2.simps [of 0])
next
  case False
  assume "\<bar>q\<bar> < pow2 k" "0 < k"
  then show ?thesis using False ilog2_upper [of "\<bar>q\<bar>" k] by (simp add: expo_def)
qed

lemma rnd_finite:
  "expo q < 1023 \<Longrightarrow>
   rnd q = Finite ((if 0 < q then 1 else - 1) *
             of_int (round_even (\<bar>q\<bar> / pow2 (expo q - 52))) * pow2 (expo q - 52))"
  by (simp add: rnd_def Let_def)

lemma round_even_of_int: "round_even (of_int k) = k"
  by (simp add: round_even_def)

lemma round_even_le: "x \<le> of_int k \<Longrightarrow> round_even x \<le> k"
proof -
  assume a: "x \<le> of_int k"
  have f: "\<lfloor>x\<rfloor> \<le> k" using a by (simp add: floor_le_iff)
  show ?thesis
  proof (cases "\<lfloor>x\<rfloor> = k")
    case True
    then have "x = of_int k" using a by linarith
    then show ?thesis by (simp add: round_even_of_int)
  next
    case False
    then have "\<lfloor>x\<rfloor> + 1 \<le> k" using f by simp
    then show ?thesis by (simp add: round_even_def Let_def)
  qed
qed

lemma round_even_ge: "of_int k \<le> x \<Longrightarrow> k \<le> round_even x"
proof -
  assume "of_int k \<le> x"
  then have "k \<le> \<lfloor>x\<rfloor>" by (simp add: le_floor_iff)
  then show ?thesis by (simp add: round_even_def Let_def)
qed

lemma rnd_small:
  assumes "0 \<le> q" "q \<le> of_nat N" "N < 2 ^ 53"
  shows "\<exists>v. rnd q = Finite v \<and> 0 \<le> v \<and> v \<le> of_nat N"
proof -
  have "\<bar>q\<bar> < pow2 53"
  proof -
    have "of_nat N < (2 ^ 53 :: rat)" using assms(3) by (metis of_nat_less_iff of_nat_numeral of_nat_power)
    then show ?thesis using assms(1,2) by (simp add: pow2_def)
  qed
  then have e: "expo q < 53" by (rule expo_upper) simp
  define j where "j = nat (52 - expo q)"
  have u: "pow2 (expo q - 52) = 1 / 2 ^ j"
    using e by (simp add: pow2_neg_nat j_def)
  define m where "m = round_even (\<bar>q\<bar> / pow2 (expo q - 52))"
  have scaled: "\<bar>q\<bar> / pow2 (expo q - 52) = q * 2 ^ j"
    using assms(1) by (simp add: u)
  have "q * 2 ^ j \<le> of_int (int N * 2 ^ j)"
    using assms(2) by simp
  then have mle: "m \<le> int N * 2 ^ j"
    unfolding m_def scaled by (rule round_even_le)
  have "of_int 0 \<le> q * 2 ^ j" using assms(1) by simp
  then have mge: "0 \<le> m"
    unfolding m_def scaled by (rule round_even_ge)
  have val: "rnd q = Finite ((if 0 < q then 1 else - 1) * of_int m * pow2 (expo q - 52))"
    using e by (simp add: rnd_finite m_def)
  have m0: "m = 0" if "\<not> 0 < q"
  proof -
    from that assms(1) have "q = 0" by simp
    then show ?thesis by (simp add: m_def round_even_def)
  qed
  have "rnd q = Finite (of_int m / 2 ^ j)"
    using val m0 by (cases "0 < q") (simp_all add: u)
  moreover have "0 \<le> (of_int m / 2 ^ j :: rat)" using mge by simp
  moreover have "(of_int m / 2 ^ j :: rat) \<le> of_nat N"
  proof -
    have "(of_int m :: rat) \<le> of_int (int N * 2 ^ j)" using mle by (simp only: of_int_le_iff)
    then show ?thesis by (simp add: field_simps)
  qed
  ultimately show ?thesis by blast
qed

lemma rnd_of_nat:
  assumes "n < 2 ^ 53"
  shows "rnd (of_nat n) = Finite (of_nat n)"
proof -
  let ?q = "of_nat n :: rat"
  have "\<bar>?q\<bar> < pow2 53"
  proof -
    have "?q < 2 ^ 53" using assms by (metis of_nat_less_iff of_nat_numeral of_nat_power)
    then show ?thesis by (simp add: pow2_def)
  qed
  then have e: "expo ?q < 53" by (rule expo_upper) simp
  define j where "j = nat (52 - expo ?q)"
  have u: "pow2 (expo ?q - 52) = 1 / 2 ^ j"
    using e by (simp add: pow2_neg_nat j_def)
  define m where "m = round_even (\<bar>?q\<bar> / pow2 (expo ?q - 52))"
  have scaled: "\<bar>?q\<bar> / pow2 (expo ?q - 52) = of_int (int n * 2 ^ j)"
    by (simp add: u)
  have m: "m = int n * 2 ^ j"
    unfolding m_def scaled by (rule round_even_of_int)
  have "rnd ?q = Finite ((if 0 < ?q then 1 else - 1) * of_int m * pow2 (expo ?q - 52))"
    using e by (simp add: rnd_finite m_def)
  then show ?thesis
    by (cases "n = 0") (simp_all add: m u)
qed

section \<open>Colour samples and the test of the source\<close>

lemma digits_takeWhile: "digits d \<Longrightarrow> \<not> is_digit x \<Longrightarrow> takeWhile is_digit (d @ x # rest) = d"
  by (simp add: digits_def list_all_iff takeWhile_tail)

lemma digits_dropWhile: "digits d \<Longrightarrow> \<not> is_digit x \<Longrightarrow> dropWhile is_digit (d @ x # rest) = x # rest"
  by (simp add: digits_def list_all_iff dropWhile_append2)

lemma dec_Nil: "dec [] = 0"
  by (simp add: dec_def)

lemma parseFloat_alpha:
  assumes "digits ip" "list_all is_digit fp"
  shows "parseFloat (alpha_text ip fp) = rnd (alpha_value ip fp)"
proof (cases "fp = []")
  case True
  have t: "takeWhile is_digit ip = ip" and d: "dropWhile is_digit ip = []"
    using assms(1) by (simp_all add: digits_def list_all_iff)
  have ne: "ip \<noteq> []" using assms(1) by (simp add: digits_def)
  show ?thesis
    using True ne by (simp add: parseFloat_def alpha_text_def alpha_value_def t d dec_Nil Let_def)
next
  case False
  have nd: "\<not> is_digit 46" by (simp add: is_digit_def)
  have t: "takeWhile is_digit (ip @ 46 # fp) = ip"
    using assms(1) nd by (rule digits_takeWhile)
  have d: "dropWhile is_digit (ip @ 46 # fp) = 46 # fp"
    using assms(1) nd by (rule digits_dropWhile)
  have f: "takeWhile is_digit fp = fp"
    using assms(2) by (simp add: list_all_iff)
  have ne: "ip \<noteq> []" using assms(1) by (simp add: digits_def)
  show ?thesis
    using False ne
    by (simp add: parseFloat_def alpha_text_def alpha_value_def str_def t d f Let_def)
qed

lemma rnd_below_one:
  assumes "0 \<le> q" "q \<le> 1 - 1 / 2 ^ 53"
  shows "rnd q \<noteq> Finite 1"
proof (cases "q = 0")
  case True
  have "rnd (of_nat 0) = Finite (of_nat 0)" by (rule rnd_of_nat) simp
  then show ?thesis using True by simp
next
  case False
  then have pos: "0 < q" using assms(1) by simp
  have q1: "q < pow2 0" using assms(2) by (simp add: pow2_def)
  have "ilog2 \<bar>q\<bar> < 0" using pos q1 ilog2_upper [of q 0] by simp
  then have e: "expo q < 0" by (simp add: expo_def)
  define n where "n = nat (- 1 - expo q)"
  have u: "pow2 (expo q - 52) = 1 / 2 ^ (53 + n)"
  proof -
    have "nat (- (expo q - 52)) = 53 + n" using e by (simp add: n_def)
    then show ?thesis using e pow2_neg_nat [of "expo q - 52"] by simp
  qed
  define m where "m = round_even (\<bar>q\<bar> / pow2 (expo q - 52))"
  have scaled: "\<bar>q\<bar> / pow2 (expo q - 52) = q * 2 ^ (53 + n)"
    using pos by (simp add: u)
  have "q * 2 ^ (53 + n) \<le> (1 - 1 / 2 ^ 53) * 2 ^ (53 + n)"
    using assms(2) by (simp add: mult_right_mono)
  also have "(1 - 1 / 2 ^ 53) * 2 ^ (53 + n) = (of_int ((2 ^ 53 - 1) * 2 ^ n) :: rat)"
    by (simp add: power_add algebra_simps)
  finally have "m \<le> (2 ^ 53 - 1) * 2 ^ n"
    unfolding m_def scaled by (rule round_even_le)
  then have "(of_int m :: rat) \<le> of_int ((2 ^ 53 - 1) * 2 ^ n)"
    by (simp only: of_int_le_iff)
  then have "(of_int m :: rat) / 2 ^ (53 + n) \<le> of_int ((2 ^ 53 - 1) * 2 ^ n) / 2 ^ (53 + n)"
    by (simp add: divide_right_mono)
  also have "(of_int ((2 ^ 53 - 1) * 2 ^ n) :: rat) / 2 ^ (53 + n) = 1 - 1 / 2 ^ 53"
    by (simp add: power_add field_simps)
  finally have le: "(of_int m :: rat) / 2 ^ (53 + n) \<le> 1 - 1 / 2 ^ 53" .
  have "(1 :: rat) - 1 / 2 ^ 53 < 1" by simp
  with le have v: "(of_int m :: rat) / 2 ^ (53 + n) < 1" by (rule le_less_trans)
  have "rnd q = Finite ((if 0 < q then 1 else - 1) * of_int m * pow2 (expo q - 52))"
    using e by (simp add: rnd_finite m_def)
  then have "rnd q = Finite (of_int m / 2 ^ (53 + n))"
    using pos by (simp add: u)
  then show ?thesis using v by simp
qed


lemma alpha_value_nat:
  "alpha_value ip fp = of_nat (dec ip * 10 ^ length fp + dec fp) / 10 ^ length fp"
  by (simp add: alpha_value_def field_simps)

lemma alpha_exact:
  assumes "length fp \<le> 15" "alpha_value ip fp \<le> 1"
  shows "rnd (alpha_value ip fp) = Finite 1 \<longleftrightarrow> alpha_value ip fp = 1"
proof
  assume "alpha_value ip fp = 1"
  moreover have "rnd (of_nat 1) = Finite (of_nat 1)" by (rule rnd_of_nat) simp
  ultimately show "rnd (alpha_value ip fp) = Finite 1" by simp
next
  assume r: "rnd (alpha_value ip fp) = Finite 1"
  show "alpha_value ip fp = 1"
  proof (rule ccontr)
    assume "alpha_value ip fp \<noteq> 1"
    then have lt: "alpha_value ip fp < 1" using assms(2) by simp
    define k where "k = length fp"
    define N where "N = dec ip * 10 ^ k + dec fp"
    have v: "alpha_value ip fp = of_nat N / 10 ^ k"
      by (simp add: alpha_value_nat N_def k_def)
    have "(of_nat N :: rat) < 10 ^ k" using lt by (simp add: v)
    then have "N < 10 ^ k" by (metis of_nat_less_iff of_nat_numeral of_nat_power)
    then have "N + 1 \<le> 10 ^ k" by simp
    then have "(of_nat (N + 1) :: rat) \<le> of_nat (10 ^ k)" by (simp only: of_nat_le_iff)
    then have "(of_nat N :: rat) \<le> 10 ^ k - 1" by simp
    then have "(of_nat N :: rat) / 10 ^ k \<le> (10 ^ k - 1) / 10 ^ k"
      by (simp add: divide_right_mono)
    also have "((10 :: rat) ^ k - 1) / 10 ^ k = 1 - 1 / 10 ^ k"
      by (simp add: field_simps)
    also have "\<dots> \<le> 1 - 1 / 10 ^ 15"
    proof -
      have "k \<le> 15" using assms(1) by (simp add: k_def)
      then have "(10 :: rat) ^ k \<le> 10 ^ 15" by (rule power_increasing) simp
      then have "1 / (10 :: rat) ^ 15 \<le> 1 / 10 ^ k" by (simp add: frac_le)
      then show ?thesis by simp
    qed
    also have "(1 :: rat) - 1 / 10 ^ 15 \<le> 1 - 1 / 2 ^ 53" by simp
    finally have "alpha_value ip fp \<le> 1 - 1 / 2 ^ 53" by (simp add: v)
    moreover have "0 \<le> alpha_value ip fp" by (simp add: alpha_value_def)
    ultimately have "rnd (alpha_value ip fp) \<noteq> Finite 1" by (simp add: rnd_below_one)
    then show False using r by simp
  qed
qed

lemma strip_prefix_set: "strip_prefix pat s = Some r \<Longrightarrow> set pat \<subseteq> set s"
  by (induction pat s rule: strip_prefix.induct) (auto split: if_splits)

lemma js_includes_set: "js_includes s pat \<Longrightarrow> set pat \<subseteq> set s"
proof (induction s)
  case Nil
  then show ?case by simp
next
  case (Cons c cs)
  then show ?case using strip_prefix_set [of pat "c # cs"] by auto
qed

lemma strip_prefix_append: "strip_prefix pat (pat @ r) = Some r"
  by (induction pat) simp_all

lemma js_includes_prefix: "pat \<noteq> [] \<Longrightarrow> js_includes (pat @ r) pat"
  by (cases pat) (simp_all add: strip_prefix_append [of "_ # _", simplified])

lemma match_alpha_Nil: "match_alpha [] = None"
  by (simp add: match_alpha_def str_def)

lemma match_alpha_not_comma: "c \<noteq> 44 \<Longrightarrow> match_alpha (c # cs) = None"
  by (simp add: match_alpha_def str_def)

lemma alpha_exec_skip: "44 \<notin> set xs \<Longrightarrow> alpha_exec (xs @ ys) = alpha_exec ys"
  by (induction xs) (simp_all add: match_alpha_not_comma)

lemma digit_facts: "is_digit c \<Longrightarrow> c \<noteq> 44 \<and> c \<noteq> 97 \<and> \<not> is_space c \<and> is_digit_or_dot c"
  by (auto simp: is_digit_def is_space_def is_digit_or_dot_def)

lemma match_alpha_text:
  assumes "a \<noteq> []" "list_all is_digit_or_dot a" "\<not> is_space (hd a)" "\<not> is_digit_or_dot x"
  shows "match_alpha (str '', '' @ a @ x # rest) =
           (if x = 41 then Some a else None)"
proof -
  obtain c cs where a: "a = c # cs" using assms(1) by (cases a) auto
  have s32: "is_space 32" by (simp add: is_space_def)
  have sp: "dropWhile is_space (a @ x # rest) = a @ x # rest"
    using assms(3) a by simp
  have tk: "takeWhile is_digit_or_dot (a @ x # rest) = a"
    using assms(2,4) by (simp add: list_all_iff takeWhile_tail)
  have dr: "dropWhile is_digit_or_dot (a @ x # rest) = x # rest"
    using assms(2,4) by (simp add: list_all_iff dropWhile_append2)
  have s1: "strip_prefix (str '','') (str '', '' @ a @ x # rest) = Some (32 # a @ x # rest)"
    by (simp add: str_def)
  have s2: "dropWhile is_space (32 # a @ x # rest) = a @ x # rest"
    using s32 sp by simp
  have s3: "strip_prefix (str '')'') (x # rest) = (if x = 41 then Some rest else None)"
    by (simp add: str_def)
  show ?thesis
    unfolding match_alpha_def s1 option.case Let_def s2 tk dr s3
    using assms(1) by simp
qed

lemma alpha_exec_channel:
  assumes "digits d"
  shows "alpha_exec (str '', '' @ d @ 44 # rest) = alpha_exec (44 # rest)"
proof -
  have all: "\<forall>c \<in> set d. is_digit c" and ne: "d \<noteq> []"
    using assms by (simp_all add: digits_def list_all_iff)
  have "hd d \<in> set d" using ne by simp
  then have h: "\<not> is_space (hd d)" using all digit_facts by blast
  have dd: "list_all is_digit_or_dot d" using all digit_facts by (simp add: list_all_iff)
  have "match_alpha (str '', '' @ d @ 44 # rest) = None"
    using match_alpha_text [OF ne dd h, of 44 rest] by (simp add: is_digit_or_dot_def is_digit_def)
  then have "alpha_exec (str '', '' @ d @ 44 # rest) = alpha_exec (32 # d @ 44 # rest)"
    by (simp add: str_def)
  also have "\<dots> = alpha_exec ((32 # d) @ 44 # rest)" by simp
  also have "\<dots> = alpha_exec (44 # rest)"
  proof (rule alpha_exec_skip)
    show "44 \<notin> set (32 # d)" using all digit_facts by auto
  qed
  finally show ?thesis .
qed

lemma alpha_text_facts:
  assumes "digits ip" "list_all is_digit fp"
  shows "alpha_text ip fp \<noteq> []" "list_all is_digit_or_dot (alpha_text ip fp)"
    "\<not> is_space (hd (alpha_text ip fp))"
proof -
  have all: "\<forall>c \<in> set ip. is_digit c" and ne: "ip \<noteq> []"
    using assms(1) by (simp_all add: digits_def list_all_iff)
  show "alpha_text ip fp \<noteq> []" using ne by (simp add: alpha_text_def)
  show "list_all is_digit_or_dot (alpha_text ip fp)"
    using all assms(2) digit_facts
    by (auto simp: alpha_text_def list_all_iff str_def is_digit_or_dot_def)
  have "hd (alpha_text ip fp) = hd ip" using ne by (simp add: alpha_text_def)
  moreover have "hd ip \<in> set ip" using ne by simp
  ultimately show "\<not> is_space (hd (alpha_text ip fp))" using all digit_facts by metis
qed

lemma alpha_exec_sample:
  assumes "wf_sample (Rgba r g b ip fp)"
  shows "alpha_exec (sample_text (Rgba r g b ip fp)) = Some (alpha_text ip fp)"
proof -
  let ?a = "alpha_text ip fp"
  have w: "digits r" "digits g" "digits b" "digits ip" "list_all is_digit fp"
    using assms by simp_all
  have rall: "\<forall>c \<in> set r. is_digit c" using w(1) by (simp add: digits_def list_all_iff)
  have shape: "sample_text (Rgba r g b ip fp) =
          (str ''rgba('' @ r) @ (str '', '' @ g @ 44 # (32 # b @ 44 # 32 # ?a @ [41]))"
    by (simp add: str_def)
  have nc: "44 \<notin> set (str ''rgba('' @ r)"
    using rall digit_facts by (auto simp: str_def)
  have "alpha_exec (sample_text (Rgba r g b ip fp)) =
          alpha_exec (str '', '' @ g @ 44 # (32 # b @ 44 # 32 # ?a @ [41]))"
    unfolding shape using nc by (rule alpha_exec_skip)
  also have "\<dots> = alpha_exec (44 # (32 # b @ 44 # 32 # ?a @ [41]))"
    using w(2) by (rule alpha_exec_channel)
  also have "\<dots> = alpha_exec (str '', '' @ b @ 44 # (32 # ?a @ [41]))"
    by (simp add: str_def)
  also have "\<dots> = alpha_exec (44 # (32 # ?a @ [41]))"
    using w(3) by (rule alpha_exec_channel)
  also have "\<dots> = Some ?a"
  proof -
    have "match_alpha (str '', '' @ ?a @ 41 # []) = Some ?a"
      using match_alpha_text [OF alpha_text_facts [OF w(4,5)], of 41 "[]"]
      by (simp add: is_digit_or_dot_def is_digit_def)
    then show ?thesis by (simp add: str_def)
  qed
  finally show ?thesis .
qed

lemma sample_no_a: "wf_sample (Rgb r g b) \<Longrightarrow> 97 \<notin> set (sample_text (Rgb r g b))"
  using digit_facts by (auto simp: digits_def list_all_iff str_def)

lemma solid_sample: "wf_sample cs \<Longrightarrow> solid (sample_text cs) = sample_solid cs"
proof (cases cs)
  case (Rgb r g b)
  assume w: "wf_sample cs"
  have "\<not> js_includes (sample_text (Rgb r g b)) (str ''rgba'')"
  proof
    assume "js_includes (sample_text (Rgb r g b)) (str ''rgba'')"
    then have "set (str ''rgba'') \<subseteq> set (sample_text (Rgb r g b))" by (rule js_includes_set)
    then have "97 \<in> set (sample_text (Rgb r g b))" by (auto simp: str_def)
    then show False using w Rgb sample_no_a by blast
  qed
  then show ?thesis using Rgb by (simp add: solid_def)
next
  case (Rgba r g b ip fp)
  assume w: "wf_sample cs"
  have inc: "js_includes (sample_text (Rgba r g b ip fp)) (str ''rgba'')"
    using js_includes_prefix [of "str ''rgba''"] by (simp add: str_def)
  have ex: "alpha_exec (sample_text (Rgba r g b ip fp)) = Some (alpha_text ip fp)"
    using w Rgba by (simp only: alpha_exec_sample)
  have pf: "parseFloat (alpha_text ip fp) = rnd (alpha_value ip fp)"
    using w Rgba by (simp add: parseFloat_alpha)
  have eq: "rnd (alpha_value ip fp) = Finite 1 \<longleftrightarrow> alpha_value ip fp = 1"
    using w Rgba by (simp add: alpha_exact)
  have "solid (sample_text (Rgba r g b ip fp)) = (parseFloat (alpha_text ip fp) = Finite 1)"
    by (simp add: solid_def inc ex del: sample_text.simps)
  then show ?thesis
    unfolding Rgba by (simp only: pf eq sample_solid.simps)
qed

lemma solid_color_iff: "is_sample c \<Longrightarrow> solid c = solid_color c"
  using solid_sample by (auto simp: is_sample_def solid_color_def)

lemma sample_first: "is_sample c \<Longrightarrow> \<exists>t. c = 114 # t"
proof -
  assume "is_sample c"
  then obtain cs where "c = sample_text cs" by (auto simp: is_sample_def)
  then show ?thesis by (cases cs) (simp_all add: str_def)
qed

lemma sample_nonempty: "is_sample c \<Longrightarrow> c \<noteq> []"
  using sample_first by blast

lemma rgb_is_sample: "digits r \<Longrightarrow> digits g \<Longrightarrow> digits b \<Longrightarrow>
    is_sample (str ''rgb('' @ r @ str '', '' @ g @ str '', '' @ b @ str '')'') \<and>
    solid_color (str ''rgb('' @ r @ str '', '' @ g @ str '', '' @ b @ str '')'')"
proof -
  assume "digits r" "digits g" "digits b"
  then have "wf_sample (Rgb r g b) \<and> sample_solid (Rgb r g b)" by simp
  then show ?thesis
    unfolding is_sample_def solid_color_def
    by (metis sample_text.simps(1))
qed

lemma digits_lit:
  "digits (str ''0'')" "digits (str ''240'')" "digits (str ''250'')" "digits (str ''255'')"
  by (simp_all add: digits_def str_def is_digit_def)

lemma white_sample:
  "is_sample (str ''rgb(255, 255, 255)'')" "solid_color (str ''rgb(255, 255, 255)'')"
  using rgb_is_sample [OF digits_lit(4) digits_lit(4) digits_lit(4)] by (simp_all add: str_def)

lemma grey_sample:
  "is_sample (str ''rgb(240, 240, 240)'')" "solid_color (str ''rgb(240, 240, 240)'')"
  using rgb_is_sample [OF digits_lit(2) digits_lit(2) digits_lit(2)] by (simp_all add: str_def)

lemma offwhite_sample:
  "is_sample (str ''rgb(250, 250, 250)'')" "solid_color (str ''rgb(250, 250, 250)'')"
  using rgb_is_sample [OF digits_lit(3) digits_lit(3) digits_lit(3)] by (simp_all add: str_def)

lemma red_sample:
  "is_sample (str ''rgb(255, 0, 0)'')" "solid_color (str ''rgb(255, 0, 0)'')"
  using rgb_is_sample [OF digits_lit(4) digits_lit(1) digits_lit(1)] by (simp_all add: str_def)

lemma half_sample:
  "is_sample (str ''rgba(0, 0, 0, 0.5)'')" "\<not> solid_color (str ''rgba(0, 0, 0, 0.5)'')"
proof -
  have w: "wf_sample (Rgba (str ''0'') (str ''0'') (str ''0'') (str ''0'') (str ''5''))"
    by (simp add: digits_lit) (simp add: alpha_value_def dec_def digit_val_def str_def is_digit_def)
  have t: "sample_text (Rgba (str ''0'') (str ''0'') (str ''0'') (str ''0'') (str ''5'')) =
           str ''rgba(0, 0, 0, 0.5)''"
    by (simp add: alpha_text_def str_def)
  show s: "is_sample (str ''rgba(0, 0, 0, 0.5)'')"
    unfolding is_sample_def using w t by metis
  show "\<not> solid_color (str ''rgba(0, 0, 0, 0.5)'')"
    using solid_color_iff [OF s] not_solid_half by simp
qed

lemma oklch_not_sample:
  "\<not> is_sample (str ''oklch(0.7 0.1 200 / 0.5)'')" "\<not> solid_color (str ''oklch(0.7 0.1 200 / 0.5)'')"
proof -
  show n: "\<not> is_sample (str ''oklch(0.7 0.1 200 / 0.5)'')"
  proof
    assume "is_sample (str ''oklch(0.7 0.1 200 / 0.5)'')"
    then obtain t where "str ''oklch(0.7 0.1 200 / 0.5)'' = 114 # t" using sample_first by blast
    then show False by (simp add: str_def)
  qed
  then show "\<not> solid_color (str ''oklch(0.7 0.1 200 / 0.5)'')"
    by (auto simp: is_sample_def solid_color_def)
qed
section \<open>Properties of the extractors\<close>

text \<open>
  Claim C4. When the selector matches no element, both extractors fail with the
  element-not-found error before any effect: the page state is the one they were given
  and the log of effects is empty.
\<close>

theorem not_found_before_any_effect:
  assumes "querySelector br p selector = None"
  shows "vortexExtractFormFieldBorderColor br p selector = (Inl (ElementNotFound selector), p, []) \<and>
         vortexExtractFormContainerBackground br p selector = (Inl (ElementNotFound selector), p, [])"
  using assms
  by (simp add: vortexExtractFormFieldBorderColor_def vortexExtractFormContainerBackground_def)

theorem not_found_before_any_effect_witness:
  "querySelector (test_browser 200) \<lparr>focused = Some 3, since_blur = 1000\<rparr> (str ''#missing'') = None \<and>
   vortexExtractFormFieldBorderColor (test_browser 200) \<lparr>focused = Some 3, since_blur = 1000\<rparr> (str ''#missing'')
     = (Inl (ElementNotFound (str ''#missing'')), \<lparr>focused = Some 3, since_blur = 1000\<rparr>, []) \<and>
   vortexExtractFormContainerBackground (test_browser 200) \<lparr>focused = Some 3, since_blur = 1000\<rparr> (str ''#missing'')
     = (Inl (ElementNotFound (str ''#missing'')), \<lparr>focused = Some 3, since_blur = 1000\<rparr>, [])"
proof -
  have h: "querySelector (test_browser 200) \<lparr>focused = Some 3, since_blur = 1000\<rparr> (str ''#missing'') = None"
    by (simp add: test_browser_def str_def)
  show ?thesis
    using h not_found_before_any_effect [OF h] by simp
qed

lemma border_call_located:
  assumes "querySelector br p selector = Some input"
  shows "vortexExtractFormFieldBorderColor br p selector =
    (let p4 = settle br p input; t4 = defocus_log br p input @ [Wait 200];
         w = borderWidth (getComputedStyle br p4 input)
     in case (if zero_width w then parentElement br p4 input else Some input) of
          None \<Rightarrow> (Inl TypeError, p4, t4 @ [ComputedStyle input])
        | Some be \<Rightarrow>
            (Inr \<lparr>color = vortexRgbToHex (borderColor (getComputedStyle br p4 be)),
                  element = descriptor br p4 be,
                  width = borderWidth (getComputedStyle br p4 be)\<rparr>,
             p4, t4 @ [ComputedStyle input, ComputedStyle be, ComputedStyle be]))"
  using assms
  by (simp add: vortexExtractFormFieldBorderColor_def settle_def defocus_def defocus_log_def
      zero_width_def Let_def split: option.splits)

text \<open>
  Claim C6, amended. When the computed border width of the located target is zero (the
  string \<open>0px\<close> or \<open>0\<close>) and the target has a parent element, the colour, the descriptor
  and the width that the call returns are read from that parent; when the width is not
  zero they are read from the target itself. All reads are made in the page as it is
  when the call resumes. The claim as first stated, for every located target of zero
  width, fails at the root element, which has no parent: there the call ends in the
  \<open>TypeError\<close> of \<open>getComputedStyle(null)\<close>.
\<close>

theorem border_from_parent_or_self:
  assumes "querySelector br p selector = Some input"
  shows "(zero_width (borderWidth (getComputedStyle br (settle br p input) input)) \<longrightarrow>
          (\<forall>parent. parentElement br (settle br p input) input = Some parent \<longrightarrow>
             fst (vortexExtractFormFieldBorderColor br p selector) =
               Inr \<lparr>color = vortexRgbToHex (borderColor (getComputedStyle br (settle br p input) parent)),
                    element = descriptor br (settle br p input) parent,
                    width = borderWidth (getComputedStyle br (settle br p input) parent)\<rparr>)) \<and>
         (\<not> zero_width (borderWidth (getComputedStyle br (settle br p input) input)) \<longrightarrow>
             fst (vortexExtractFormFieldBorderColor br p selector) =
               Inr \<lparr>color = vortexRgbToHex (borderColor (getComputedStyle br (settle br p input) input)),
                    element = descriptor br (settle br p input) input,
                    width = borderWidth (getComputedStyle br (settle br p input) input)\<rparr>)"
  by (simp add: border_call_located [OF assms] Let_def)

theorem border_from_parent_or_self_witness:
  "querySelector wrapped_browser \<lparr>focused = Some 3, since_blur = 1000\<rparr> (str ''input[type=email]'') = Some 3 \<and>
   zero_width (borderWidth (getComputedStyle wrapped_browser \<lparr>focused = None, since_blur = 200\<rparr> 3)) \<and>
   parentElement wrapped_browser \<lparr>focused = None, since_blur = 200\<rparr> 3 = Some 2 \<and>
   fst (vortexExtractFormFieldBorderColor wrapped_browser \<lparr>focused = Some 3, since_blur = 1000\<rparr>
         (str ''input[type=email]'')) =
     Inr \<lparr>color = str ''#CCCCCC'', element = JStr (str ''field''), width = str ''1px''\<rparr> \<and>
   querySelector (test_browser 200) \<lparr>focused = Some 3, since_blur = 1000\<rparr> (str ''input[type=email]'') = Some 3 \<and>
   \<not> zero_width (borderWidth (getComputedStyle (test_browser 200) \<lparr>focused = None, since_blur = 200\<rparr> 3)) \<and>
   fst (vortexExtractFormFieldBorderColor (test_browser 200) \<lparr>focused = Some 3, since_blur = 1000\<rparr>
         (str ''input[type=email]'')) =
     Inr \<lparr>color = str ''#EBE6DF'', element = JStr (str ''INPUT''), width = str ''2px''\<rparr>"
proof -
  let ?p = "\<lparr>focused = Some 3, since_blur = 1000\<rparr>"
  have h1: "querySelector wrapped_browser ?p (str ''input[type=email]'') = Some 3"
    by simp
  have h2: "querySelector (test_browser 200) ?p (str ''input[type=email]'') = Some 3"
    by simp
  have z1: "zero_width (borderWidth (getComputedStyle wrapped_browser \<lparr>focused = None, since_blur = 200\<rparr> 3))"
    by (simp add: wrapped_style_def zero_width_def)
  have z2: "\<not> zero_width (borderWidth (getComputedStyle (test_browser 200) \<lparr>focused = None, since_blur = 200\<rparr> 3))"
    by (simp add: test_style_def zero_width_def)
  have par: "parentElement wrapped_browser \<lparr>focused = None, since_blur = 200\<rparr> 3 = Some 2"
    by simp
  have c1: "fst (vortexExtractFormFieldBorderColor wrapped_browser ?p (str ''input[type=email]'')) =
     Inr \<lparr>color = str ''#CCCCCC'', element = JStr (str ''field''), width = str ''1px''\<rparr>"
    using border_from_parent_or_self [OF h1] z1
    by (simp add: wrapped_settle wrapped_style_def descriptor_def rgb_wrapper)
  have c2: "fst (vortexExtractFormFieldBorderColor (test_browser 200) ?p (str ''input[type=email]'')) =
     Inr \<lparr>color = str ''#EBE6DF'', element = JStr (str ''INPUT''), width = str ''2px''\<rparr>"
    using border_from_parent_or_self [OF h2] z2
    by (simp add: test_settle test_style_def descriptor_def rgb_resting)
  show ?thesis using h1 h2 z1 z2 par c1 c2 by simp
qed


theorem border_of_root_counterexample:
  "querySelector (test_browser 200) \<lparr>focused = Some 3, since_blur = 1000\<rparr> (str ''html'') = Some 0 \<and>
   zero_width (borderWidth (getComputedStyle (test_browser 200)
     (settle (test_browser 200) \<lparr>focused = Some 3, since_blur = 1000\<rparr> 0) 0)) \<and>
   parentElement (test_browser 200)
     (settle (test_browser 200) \<lparr>focused = Some 3, since_blur = 1000\<rparr> 0) 0 = None \<and>
   fst (vortexExtractFormFieldBorderColor (test_browser 200) \<lparr>focused = Some 3, since_blur = 1000\<rparr>
          (str ''html'')) = Inl TypeError"
proof -
  let ?p = "\<lparr>focused = Some 3, since_blur = 1000\<rparr>"
  have h: "querySelector (test_browser 200) ?p (str ''html'') = Some 0" by simp
  have z: "zero_width (borderWidth (getComputedStyle (test_browser 200)
             (settle (test_browser 200) ?p 0) 0))"
    by (simp add: test_settle_root test_style_def zero_width_def)
  have "fst (vortexExtractFormFieldBorderColor (test_browser 200) ?p (str ''html'')) = Inl TypeError"
    using z by (simp add: border_call_located [OF h] test_settle_root)
  then show ?thesis using h z by simp
qed

text \<open>
  Claim C2, amended. A call that locates its target first defocuses the element that
  holds the focus (if any) and the target, then clicks the body, then suspends for 200
  time units; every computed-style read comes after that, and the returned colour is the
  conversion of the border colour that the rendering engine computes in the page as it
  is when the call resumes. Whether that colour is the resting one is the rendering
  engine's matter: it is on the page of the test suite, whose transition takes 200 units,
  and it is not on a page whose border colour changes later than that.
\<close>

theorem settle_before_read:
  assumes "querySelector br p selector = Some input"
  shows "\<exists>res reads.
     vortexExtractFormFieldBorderColor br p selector =
       (res, settle br p input, defocus_log br p input @ Wait 200 # reads) \<and>
     list_all (\<lambda>ev. \<not> is_read ev) (defocus_log br p input) \<and>
     reads \<noteq> [] \<and> list_all is_read reads \<and>
     (\<forall>r. res = Inr r \<longrightarrow>
        (\<exists>be. color r = vortexRgbToHex (borderColor (getComputedStyle br (settle br p input) be))))"
proof -
  have quiet: "list_all (\<lambda>ev. \<not> is_read ev) (defocus_log br p input)"
    by (simp add: defocus_log_def split: option.splits)
  show ?thesis
  proof (cases "if zero_width (borderWidth (getComputedStyle br (settle br p input) input))
                then parentElement br (settle br p input) input else Some input")
    case None
    then show ?thesis
      using quiet by (simp add: border_call_located [OF assms] Let_def)
  next
    case (Some be)
    then show ?thesis
      using quiet by (auto simp add: border_call_located [OF assms] Let_def)
  qed
qed


theorem settle_before_read_witness:
  "querySelector (test_browser 200) \<lparr>focused = Some 3, since_blur = 1000\<rparr> (str ''input[type=email]'') = Some 3 \<and>
   (\<exists>res reads.
     vortexExtractFormFieldBorderColor (test_browser 200) \<lparr>focused = Some 3, since_blur = 1000\<rparr>
         (str ''input[type=email]'') =
       (res, \<lparr>focused = None, since_blur = 200\<rparr>, [Blur 3, Blur 3, Click 1] @ Wait 200 # reads) \<and>
     reads \<noteq> [] \<and> list_all is_read reads \<and>
     res = Inr \<lparr>color = str ''#EBE6DF'', element = JStr (str ''INPUT''), width = str ''2px''\<rparr>)"
proof -
  let ?p = "\<lparr>focused = Some 3, since_blur = 1000\<rparr>"
  have h: "querySelector (test_browser 200) ?p (str ''input[type=email]'') = Some 3"
    by simp
  have log: "defocus_log (test_browser 200) ?p 3 = [Blur 3, Blur 3, Click 1]"
    by (simp add: defocus_log_def)
  have res: "fst (vortexExtractFormFieldBorderColor (test_browser 200) ?p (str ''input[type=email]'')) =
     Inr \<lparr>color = str ''#EBE6DF'', element = JStr (str ''INPUT''), width = str ''2px''\<rparr>"
    by (simp add: border_call_located [OF h] test_settle test_style_def zero_width_def
        descriptor_def rgb_resting)
  from settle_before_read [OF h] obtain r reads where
    "vortexExtractFormFieldBorderColor (test_browser 200) ?p (str ''input[type=email]'') =
       (r, settle (test_browser 200) ?p 3, defocus_log (test_browser 200) ?p 3 @ Wait 200 # reads)"
    "reads \<noteq> []" "list_all is_read reads"
    by blast
  then show ?thesis
    using h res by (simp add: log test_settle)
qed

theorem slow_transition_counterexample:
  "activeElement (test_browser 1000) \<lparr>focused = Some 3, since_blur = 5000\<rparr> = Some 3 \<and>
   borderColor (getComputedStyle (test_browser 1000) \<lparr>focused = Some 3, since_blur = 5000\<rparr> 3)
     = str ''rgb(3, 212, 124)'' \<and>
   borderColor (getComputedStyle (test_browser 1000) \<lparr>focused = None, since_blur = 5000\<rparr> 3)
     = str ''rgb(235, 230, 223)'' \<and>
   vortexRgbToHex (str ''rgb(235, 230, 223)'') = str ''#EBE6DF'' \<and>
   fst (vortexExtractFormFieldBorderColor (test_browser 1000) \<lparr>focused = Some 3, since_blur = 5000\<rparr>
         (str ''input[type=email]'')) =
     Inr \<lparr>color = str ''#03D47C'', element = JStr (str ''INPUT''), width = str ''2px''\<rparr>"
proof -
  let ?p = "\<lparr>focused = Some 3, since_blur = 5000\<rparr>"
  have h: "querySelector (test_browser 1000) ?p (str ''input[type=email]'') = Some 3"
    by simp
  have "fst (vortexExtractFormFieldBorderColor (test_browser 1000) ?p (str ''input[type=email]'')) =
     Inr \<lparr>color = str ''#03D47C'', element = JStr (str ''INPUT''), width = str ''2px''\<rparr>"
    by (simp add: border_call_located [OF h] test_settle test_style_def zero_width_def
        descriptor_def rgb_focused)
  then show ?thesis
    by (simp add: test_style_def rgb_resting)
qed

lemma walk_reads:
  "list_all is_read (reads w) \<Longrightarrow> list_all is_read (reads (walk br p i w))"
proof (induction br p i w rule: walk.induct)
  case (1 br p i w)
  show ?case
  proof (cases "i < 15")
    case False
    then show ?thesis using "1.prems" by (simp add: walk.simps)
  next
    case True
    show ?thesis
    proof (cases "current w")
      case None
      then show ?thesis using True "1.prems" by (simp add: walk.simps)
    next
      case (Some c)
      have "list_all is_read (reads (walk_step br p i c w))"
        using "1.prems" by (simp add: walk_step_def Let_def)
      then have "list_all is_read (reads (walk br p (i + 1) (walk_step br p i c w)))"
        using "1.IH" True Some by simp
      then show ?thesis using True Some by (simp add: walk.simps)
    qed
  qed
qed

lemma container_call_effects:
  "fst (snd (vortexExtractFormContainerBackground br p selector)) = p \<and>
   list_all is_read (snd (snd (vortexExtractFormContainerBackground br p selector)))"
proof (cases "querySelector br p selector")
  case None
  then show ?thesis by (simp add: vortexExtractFormContainerBackground_def)
next
  case (Some input)
  have "list_all is_read (reads (walk br p 0
          \<lparr>current = Some input, backgrounds = [], modalElement = None, reads = []\<rparr>))"
    by (rule walk_reads) simp
  then show ?thesis
    using Some by (simp add: vortexExtractFormContainerBackground_def Let_def split: option.splits)
qed

text \<open>
  Claim C8, amended. A call of the resting border extractor that locates its target
  applies the focus operations to the page: the page it leaves is the one reached by the
  defocus steps and the delay, and its log starts with them, so the caller cannot assume
  that the focus is preserved. A call of the background resolver applies none: it
  returns the page state it was given, and its log holds computed-style reads only.
\<close>

theorem focus_effects:
  assumes "querySelector br p selector = Some input"
  shows "fst (snd (vortexExtractFormFieldBorderColor br p selector)) = settle br p input \<and>
         (\<exists>rest. snd (snd (vortexExtractFormFieldBorderColor br p selector)) =
                   defocus_log br p input @ rest) \<and>
         Blur input \<in> set (defocus_log br p input) \<and>
         (\<exists>b. Click b \<in> set (defocus_log br p input)) \<and>
         fst (snd (vortexExtractFormContainerBackground br p selector)) = p \<and>
         list_all is_read (snd (snd (vortexExtractFormContainerBackground br p selector)))"
proof -
  have "Blur input \<in> set (defocus_log br p input)"
    by (simp add: defocus_log_def split: option.splits)
  moreover have "\<exists>b. Click b \<in> set (defocus_log br p input)"
    by (simp add: defocus_log_def split: option.splits)
  moreover have "fst (snd (vortexExtractFormFieldBorderColor br p selector)) = settle br p input \<and>
         (\<exists>rest. snd (snd (vortexExtractFormFieldBorderColor br p selector)) =
                   defocus_log br p input @ rest)"
    by (simp add: border_call_located [OF assms] Let_def split: option.splits)
  ultimately show ?thesis using container_call_effects [of br p selector] by simp
qed

theorem container_keeps_focus_counterexample:
  "querySelector (test_browser 200) \<lparr>focused = Some 3, since_blur = 1000\<rparr> (str ''input[type=email]'') = Some 3 \<and>
   activeElement (test_browser 200) \<lparr>focused = Some 3, since_blur = 1000\<rparr> = Some 3 \<and>
   vortexExtractFormContainerBackground (test_browser 200) \<lparr>focused = Some 3, since_blur = 1000\<rparr>
       (str ''input[type=email]'') =
     (Inr \<lparr>color = str ''#FFFFFF'', element = JStr (str ''modal'')\<rparr>,
      \<lparr>focused = Some 3, since_blur = 1000\<rparr>,
      [ComputedStyle 3, ComputedStyle 2, ComputedStyle 1, ComputedStyle 0])"
  by (simp add: test_container_call)

theorem focus_effects_witness:
  "querySelector (test_browser 200) \<lparr>focused = Some 3, since_blur = 1000\<rparr> (str ''input[type=email]'') = Some 3 \<and>
   fst (snd (vortexExtractFormFieldBorderColor (test_browser 200) \<lparr>focused = Some 3, since_blur = 1000\<rparr>
       (str ''input[type=email]''))) = \<lparr>focused = None, since_blur = 200\<rparr> \<and>
   (\<exists>rest. snd (snd (vortexExtractFormFieldBorderColor (test_browser 200)
       \<lparr>focused = Some 3, since_blur = 1000\<rparr> (str ''input[type=email]''))) =
       [Blur 3, Blur 3, Click 1] @ rest) \<and>
   fst (snd (vortexExtractFormContainerBackground (test_browser 200) \<lparr>focused = Some 3, since_blur = 1000\<rparr>
       (str ''input[type=email]''))) = \<lparr>focused = Some 3, since_blur = 1000\<rparr>"
proof -
  let ?p = "\<lparr>focused = Some 3, since_blur = 1000\<rparr>"
  have h: "querySelector (test_browser 200) ?p (str ''input[type=email]'') = Some 3" by simp
  have log: "defocus_log (test_browser 200) ?p 3 = [Blur 3, Blur 3, Click 1]"
    by (simp add: defocus_log_def)
  show ?thesis
    using h focus_effects [OF h] by (simp add: test_settle log)
qed


lemma walk_backgrounds:
  "i \<le> 15 \<Longrightarrow> backgrounds (walk br p i w) =
     backgrounds w @ (case current w of None \<Rightarrow> []
                      | Some c \<Rightarrow> record_from br p i (chain br p (15 - i) c))"
proof (induction br p i w rule: walk.induct)
  case (1 br p i w)
  show ?case
  proof (cases "i < 15")
    case False
    with "1.prems" have "i = 15" by simp
    then show ?thesis by (simp add: walk.simps split: option.splits)
  next
    case True
    show ?thesis
    proof (cases "current w")
      case None
      then show ?thesis using True by (simp add: walk.simps)
    next
      case (Some c)
      from True obtain n where n: "15 - i = Suc n" "15 - (i + 1) = n"
        by (cases "15 - i") auto
      have step: "backgrounds (walk br p (i + 1) (walk_step br p i c w)) =
          backgrounds (walk_step br p i c w) @
            (case current (walk_step br p i c w) of None \<Rightarrow> []
             | Some c' \<Rightarrow> record_from br p (i + 1) (chain br p (15 - (i + 1)) c'))"
        using "1.IH" [OF True Some] True by simp
      have unfold: "walk br p i w = walk br p (i + 1) (walk_step br p i c w)"
        using True Some by (simp add: walk.simps)
      show ?thesis
        unfolding unfold step
        using Some n
        by (simp add: walk_step_def is_transparent_def Let_def split: option.splits)
    qed
  qed
qed

lemma walk_recorded:
  "backgrounds (walk br p 0 \<lparr>current = Some input, backgrounds = [], modalElement = None, reads = []\<rparr>)
     = recorded br p input"
  by (simp add: walk_backgrounds recorded_def)

lemma first_loop_find: "first_loop br p bgs = find (first_loop_test br p) bgs"
  by (induction bgs) (simp_all add: first_loop_test_def)

lemma second_loop_find: "second_loop br p bgs = find (second_loop_test br p) bgs"
  by (induction bgs) (simp_all add: second_loop_test_def is_page_root_def Let_def)

lemma record_from_levels:
  "c \<in> set (record_from br p i es) \<Longrightarrow> i \<le> level c"
proof (induction es arbitrary: i)
  case Nil
  then show ?case by simp
next
  case (Cons e es)
  from Cons.prems have "level c = i \<or> c \<in> set (record_from br p (i + 1) es)"
    by (auto split: if_splits)
  then show ?case
  proof
    assume "level c = i"
    then show ?thesis by simp
  next
    assume "c \<in> set (record_from br p (i + 1) es)"
    then have "i + 1 \<le> level c" by (rule Cons.IH)
    then show ?thesis by simp
  qed
qed

lemma record_from_sorted:
  "sorted_wrt (<) (map level (record_from br p i es))"
proof (induction es arbitrary: i)
  case Nil
  then show ?case by simp
next
  case (Cons e es)
  have "\<forall>c \<in> set (record_from br p (i + 1) es). i < level c"
    using record_from_levels [of _ br p "i + 1" es] by fastforce
  then show ?case using Cons.IH [of "i + 1"] by auto
qed


lemma find_least:
  assumes "sorted_wrt (<) (map f xs)" "c \<in> set xs" "P c" "\<forall>d \<in> set xs. P d \<longrightarrow> f c \<le> (f d :: nat)"
  shows "find P xs = Some c"
  using assms
proof (induction xs)
  case Nil
  then show ?case by simp
next
  case (Cons x xs)
  show ?case
  proof (cases "P x")
    case True
    have "c = x"
    proof (rule ccontr)
      assume "c \<noteq> x"
      then have "c \<in> set xs" using Cons.prems(2) by simp
      then have "f x < f c" using Cons.prems(1) by simp
      moreover have "f c \<le> f x" using Cons.prems(4) True by simp
      ultimately show False by simp
    qed
    then show ?thesis using True by simp
  next
    case False
    then have "c \<in> set xs" using Cons.prems(2,3) by auto
    then have "find P xs = Some c"
      using Cons.IH Cons.prems by simp
    then show ?thesis using False by simp
  qed
qed

lemma find_app:
  "find P (xs @ ys) = (case find P xs of None \<Rightarrow> find P ys | Some x \<Rightarrow> Some x)"
  by (induction xs) simp_all

lemma find_rev_greatest:
  assumes "sorted_wrt (<) (map f xs)" "c \<in> set xs" "P c" "\<forall>d \<in> set xs. P d \<longrightarrow> (f d :: nat) \<le> f c"
  shows "find P (rev xs) = Some c"
  using assms
proof (induction xs)
  case Nil
  then show ?case by simp
next
  case (Cons x xs)
  show ?case
  proof (cases "c \<in> set xs")
    case True
    then have "find P (rev xs) = Some c"
      using Cons.IH Cons.prems by simp
    then show ?thesis by (simp add: find_app)
  next
    case False
    then have cx: "c = x" using Cons.prems(2) by simp
    have "\<forall>d \<in> set xs. \<not> P d"
    proof
      fix d assume d: "d \<in> set xs"
      then have "f x < f d" using Cons.prems(1) by simp
      then show "\<not> P d" using Cons.prems(4) d cx by fastforce
    qed
    then have "find P (rev xs) = None" by (simp add: find_None_iff)
    then show ?thesis using cx Cons.prems(3) by (simp add: find_app)
  qed
qed

lemma recorded_sorted: "sorted_wrt (<) (map level (recorded br p input))"
  by (simp add: recorded_def record_from_sorted)

lemma find_in_set: "find P xs = Some c \<Longrightarrow> c \<in> set xs \<and> P c"
  by (induction xs) (auto split: if_splits)

lemma container_call_located:
  assumes "querySelector br p selector = Some input"
  shows "fst (vortexExtractFormContainerBackground br p selector) =
    (case select_candidate br p (recorded br p input) of
       None \<Rightarrow> Inl ContainerNotFound
     | Some c \<Rightarrow> if cand_color c = [] then Inl ContainerNotFound else Inr (result_of br p c))"
  using assms
  by (simp add: vortexExtractFormContainerBackground_def walk_recorded falsy_def result_of_def
      Let_def split: option.splits)

lemma select_container:
  assumes "find (first_loop_test br p) bgs = Some c" "cand_color c \<noteq> []"
  shows "select_candidate br p bgs = Some c"
  using assms by (simp add: select_candidate_def first_loop_find falsy_def Let_def)

lemma select_fallback:
  assumes "find (first_loop_test br p) bgs = None" "find (second_loop_test br p) (rev bgs) = Some c"
    "cand_color c \<noteq> []"
  shows "select_candidate br p bgs = Some c"
  using assms
  by (simp add: select_candidate_def first_loop_find second_loop_find falsy_def Let_def)

lemma select_last:
  assumes "find (first_loop_test br p) bgs = None" "find (second_loop_test br p) (rev bgs) = None"
    "bgs \<noteq> []"
  shows "select_candidate br p bgs = Some (last bgs)"
  using assms
  by (simp add: select_candidate_def first_loop_find second_loop_find falsy_def Let_def)

lemma select_none_iff:
  assumes "\<forall>c \<in> set bgs. cand_color c \<noteq> []"
  shows "(case select_candidate br p bgs of None \<Rightarrow> True | Some c \<Rightarrow> cand_color c = []) \<longleftrightarrow> bgs = []"
proof (cases "bgs = []")
  case True
  then show ?thesis by (simp add: select_candidate_def falsy_def Let_def)
next
  case False
  then have l: "last bgs \<in> set bgs" by simp
  have "\<exists>c \<in> set bgs. select_candidate br p bgs = Some c"
  proof (cases "find (first_loop_test br p) bgs")
    case (Some c)
    then have c: "c \<in> set bgs" using find_in_set by fastforce
    then show ?thesis using select_container [OF Some] assms by auto
  next
    case None
    show ?thesis
    proof (cases "find (second_loop_test br p) (rev bgs)")
      case (Some c)
      then have c: "c \<in> set bgs" using find_in_set by fastforce
      then show ?thesis using select_fallback [OF None Some] assms by auto
    next
      case n2: None
      show ?thesis using select_last [OF None n2 False] l by auto
    qed
  qed
  then show ?thesis using assms False by auto
qed

lemma rules_on_samples:
  assumes "\<forall>d \<in> set bgs. is_sample (cand_color d)"
  shows "find (first_loop_test br p) bgs = find (container_rule br p) bgs"
    and "find (second_loop_test br p) (rev bgs) = find (fallback_rule br p) (rev bgs)"
proof -
  have "first_loop_test br p d = container_rule br p d" if "d \<in> set bgs" for d
    using that assms by (simp add: first_loop_test_def container_rule_def solid_color_iff)
  then show "find (first_loop_test br p) bgs = find (container_rule br p) bgs"
    by (simp cong: find_cong)
  have "second_loop_test br p d = fallback_rule br p d" if "d \<in> set (rev bgs)" for d
    using that assms by (simp add: second_loop_test_def fallback_rule_def solid_color_iff)
  then show "find (second_loop_test br p) (rev bgs) = find (fallback_rule br p) (rev bgs)"
    by (intro find_cong refl)
qed

text \<open>
  Claim C1, amended. On a page whose recorded colours are colour samples, in the
  \<open>rgb()\<close> or \<open>rgba()\<close> form: when the walk records a candidate whose own element is a
  semantic container (a class with a modal, dialog or form marker, the DIALOG tag or the
  dialog role) and whose colour is solid (no alpha channel, or alpha exactly 1), the call
  returns the colour of the lowest-depth such candidate, converted, with the descriptor
  of its element. A solid candidate that is only inside a container, without being one,
  is not preferred.
\<close>

theorem container_priority:
  assumes "querySelector br p selector = Some input"
    and "\<forall>d \<in> set (recorded br p input). is_sample (cand_color d)"
    and "c \<in> set (recorded br p input)"
    and "container_rule br p c"
    and "\<forall>d \<in> set (recorded br p input). container_rule br p d \<longrightarrow> level c \<le> level d"
  shows "fst (vortexExtractFormContainerBackground br p selector) = Inr (result_of br p c)"
proof -
  have "find (container_rule br p) (recorded br p input) = Some c"
    using recorded_sorted assms(3,4,5) by (rule find_least)
  then have f: "find (first_loop_test br p) (recorded br p input) = Some c"
    using rules_on_samples(1) [OF assms(2), of br p] by simp
  have ne: "cand_color c \<noteq> []"
    using assms(2,3) sample_nonempty by blast
  have "select_candidate br p (recorded br p input) = Some c"
    using f ne by (rule select_container)
  then show ?thesis
    using ne by (simp add: container_call_located [OF assms(1)])
qed

theorem container_priority_witness:
  "querySelector dialog_browser \<lparr>focused = None, since_blur = 1000\<rparr> (str ''input[type=email]'') = Some 4 \<and>
   recorded dialog_browser \<lparr>focused = None, since_blur = 1000\<rparr> 4 =
     [\<lparr>level = 1, cand_color = str ''rgb(255, 255, 255)'', cand_element = 3\<rparr>,
      \<lparr>level = 2, cand_color = str ''rgb(240, 240, 240)'', cand_element = 2\<rparr>] \<and>
   is_sample (str ''rgb(255, 255, 255)'') \<and> is_sample (str ''rgb(240, 240, 240)'') \<and>
   container_rule dialog_browser \<lparr>focused = None, since_blur = 1000\<rparr>
     \<lparr>level = 1, cand_color = str ''rgb(255, 255, 255)'', cand_element = 3\<rparr> \<and>
   fallback_rule dialog_browser \<lparr>focused = None, since_blur = 1000\<rparr>
     \<lparr>level = 2, cand_color = str ''rgb(240, 240, 240)'', cand_element = 2\<rparr> \<and>
   fst (vortexExtractFormContainerBackground dialog_browser \<lparr>focused = None, since_blur = 1000\<rparr>
          (str ''input[type=email]'')) =
     Inr \<lparr>color = str ''#FFFFFF'', element = JStr (str ''dialog'')\<rparr>"
proof -
  let ?p = "\<lparr>focused = None, since_blur = 1000\<rparr>"
  let ?c = "\<lparr>level = 1, cand_color = str ''rgb(255, 255, 255)'', cand_element = 3\<rparr>"
  let ?o = "\<lparr>level = 2, cand_color = str ''rgb(240, 240, 240)'', cand_element = 2\<rparr>"
  have h: "querySelector dialog_browser ?p (str ''input[type=email]'') = Some 4" by simp
  have s: "\<forall>d \<in> set (recorded dialog_browser ?p 4). is_sample (cand_color d)"
    by (simp add: dialog_recorded white_sample grey_sample)
  have r: "container_rule dialog_browser ?p ?c"
    by (simp add: container_rule_def dialog_containers white_sample)
  have o: "fallback_rule dialog_browser ?p ?o"
    by (simp add: fallback_rule_def page_roots grey_sample)
  have m: "?c \<in> set (recorded dialog_browser ?p 4)" by (simp add: dialog_recorded)
  have low: "\<forall>d \<in> set (recorded dialog_browser ?p 4).
               container_rule dialog_browser ?p d \<longrightarrow> level ?c \<le> level d"
    by (simp add: dialog_recorded)
  have "fst (vortexExtractFormContainerBackground dialog_browser ?p (str ''input[type=email]'')) =
          Inr (result_of dialog_browser ?p ?c)"
    using h s m r low by (rule container_priority)
  then show ?thesis
    using h r o
    by (simp add: dialog_recorded result_of_def container_descriptor_def rgb_white
        white_sample grey_sample)
qed

theorem container_inside_counterexample:
  "querySelector nested_browser \<lparr>focused = None, since_blur = 1000\<rparr> (str ''input[type=email]'') = Some 5 \<and>
   recorded nested_browser \<lparr>focused = None, since_blur = 1000\<rparr> 5 =
     [\<lparr>level = 1, cand_color = str ''rgb(255, 255, 255)'', cand_element = 4\<rparr>,
      \<lparr>level = 3, cand_color = str ''rgb(255, 0, 0)'', cand_element = 2\<rparr>] \<and>
   solid (str ''rgb(255, 255, 255)'') \<and>
   solid_color (str ''rgb(255, 255, 255)'') \<and>
   within_container nested_browser \<lparr>focused = None, since_blur = 1000\<rparr> 4 \<and>
   \<not> within_container nested_browser \<lparr>focused = None, since_blur = 1000\<rparr> 2 \<and>
   vortexRgbToHex (str ''rgb(255, 255, 255)'') = str ''#FFFFFF'' \<and>
   fst (vortexExtractFormContainerBackground nested_browser \<lparr>focused = None, since_blur = 1000\<rparr>
          (str ''input[type=email]'')) =
     Inr \<lparr>color = str ''#FF0000'', element = JStr (str ''app'')\<rparr>"
proof -
  let ?p = "\<lparr>focused = None, since_blur = 1000\<rparr>"
  have h: "querySelector nested_browser ?p (str ''input[type=email]'') = Some 5" by simp
  have w4: "within_container nested_browser ?p 4"
    by (simp add: within_container_def chain_unfold nested_containers)
  have w2: "\<not> within_container nested_browser ?p 2"
    by (simp add: within_container_def chain_unfold nested_containers)
  have "fst (vortexExtractFormContainerBackground nested_browser ?p (str ''input[type=email]'')) =
     Inr \<lparr>color = str ''#FF0000'', element = JStr (str ''app'')\<rparr>"
    by (simp add: container_call_located [OF h] nested_recorded select_candidate_def falsy_def
        nested_containers solid_white solid_red result_of_def container_descriptor_def rgb_red
        Let_def)
  then show ?thesis
    using h w4 w2 by (simp add: nested_recorded solid_white white_sample rgb_white)
qed

lemma recorded_empty_iff:
  "recorded br p input = [] \<longleftrightarrow>
     (\<forall>e \<in> set (chain br p 15 input). is_transparent (backgroundColor (getComputedStyle br p e)))"
proof -
  have "record_from br p i es = [] \<longleftrightarrow>
     (\<forall>e \<in> set es. is_transparent (backgroundColor (getComputedStyle br p e)))" for i es
    by (induction es arbitrary: i) auto
  then show ?thesis by (simp add: recorded_def)
qed

lemma chain_length: "length (chain br p n e) \<le> n"
  by (induction n arbitrary: e) (auto split: option.splits)

text \<open>
  The fallback of the selection, on a page whose recorded colours are colour samples.
  When no recorded candidate satisfies the container rule, the call returns the
  highest-depth candidate that is solid and whose element is not \<open>body\<close> or \<open>html\<close>;
  when there is none either, it returns the highest-depth candidate, whatever its
  colour. The call fails with the container-not-found error exactly when the target and
  its ancestors, 15 elements at most, all have a transparent background.
\<close>

lemma fallback_on_samples:
  assumes "querySelector br p selector = Some input"
    and "\<forall>c \<in> set (recorded br p input). is_sample (cand_color c)"
  shows "((\<forall>d \<in> set (recorded br p input). \<not> container_rule br p d) \<longrightarrow>
           (\<forall>c \<in> set (recorded br p input).
              fallback_rule br p c \<and>
              (\<forall>d \<in> set (recorded br p input). fallback_rule br p d \<longrightarrow> level d \<le> level c) \<longrightarrow>
              fst (vortexExtractFormContainerBackground br p selector) = Inr (result_of br p c)) \<and>
           ((\<forall>d \<in> set (recorded br p input). \<not> fallback_rule br p d) \<and> recorded br p input \<noteq> [] \<longrightarrow>
              fst (vortexExtractFormContainerBackground br p selector) =
                Inr (result_of br p (last (recorded br p input))) \<and>
              (\<forall>d \<in> set (recorded br p input). level d \<le> level (last (recorded br p input))))) \<and>
         (fst (vortexExtractFormContainerBackground br p selector) = Inl ContainerNotFound \<longleftrightarrow>
            (\<forall>e \<in> set (chain br p 15 input).
               is_transparent (backgroundColor (getComputedStyle br p e)))) \<and>
         length (chain br p 15 input) \<le> 15"
proof -
  let ?R = "recorded br p input"
  let ?call = "fst (vortexExtractFormContainerBackground br p selector)"
  have nonempty: "\<forall>c \<in> set ?R. cand_color c \<noteq> []"
    using assms(2) sample_nonempty by blast
  have scan: "?call = Inr (result_of br p c)"
    if none: "\<forall>d \<in> set ?R. \<not> container_rule br p d"
      and c: "c \<in> set ?R" "fallback_rule br p c"
        "\<forall>d \<in> set ?R. fallback_rule br p d \<longrightarrow> level d \<le> level c" for c
  proof -
    have "find (container_rule br p) ?R = None"
      using none by (simp add: find_None_iff)
    then have f1: "find (first_loop_test br p) ?R = None"
      using rules_on_samples(1) [OF assms(2), of br p] by simp
    have "find (fallback_rule br p) (rev ?R) = Some c"
      using recorded_sorted c by (rule find_rev_greatest)
    then have f2: "find (second_loop_test br p) (rev ?R) = Some c"
      using rules_on_samples(2) [OF assms(2), of br p] by simp
    have ne: "cand_color c \<noteq> []" using nonempty c(1) by simp
    have "select_candidate br p ?R = Some c"
      using f1 f2 ne by (rule select_fallback)
    then show ?thesis using ne by (simp add: container_call_located [OF assms(1)])
  qed
  have final: "?call = Inr (result_of br p (last ?R)) \<and> (\<forall>d \<in> set ?R. level d \<le> level (last ?R))"
    if none: "\<forall>d \<in> set ?R. \<not> container_rule br p d"
      and nof: "\<forall>d \<in> set ?R. \<not> fallback_rule br p d" and ne: "?R \<noteq> []"
  proof -
    have "find (container_rule br p) ?R = None"
      using none by (simp add: find_None_iff)
    then have f1: "find (first_loop_test br p) ?R = None"
      using rules_on_samples(1) [OF assms(2), of br p] by simp
    have "find (fallback_rule br p) (rev ?R) = None"
      using nof by (simp add: find_None_iff)
    then have f2: "find (second_loop_test br p) (rev ?R) = None"
      using rules_on_samples(2) [OF assms(2), of br p] by simp
    have l: "last ?R \<in> set ?R" using ne by simp
    have "select_candidate br p ?R = Some (last ?R)"
      using f1 f2 ne by (rule select_last)
    then have r: "?call = Inr (result_of br p (last ?R))"
      using nonempty l by (simp add: container_call_located [OF assms(1)])
    have "level d \<le> level (last ?R)" if d: "d \<in> set ?R" for d
    proof -
      from d obtain i where i: "i < length ?R" "d = ?R ! i" by (auto simp: in_set_conv_nth)
      have "last ?R = ?R ! (length ?R - 1)" using ne by (simp add: last_conv_nth)
      moreover have "i \<le> length ?R - 1" using i by simp
      ultimately show ?thesis
        using recorded_sorted [of br p input] i ne
        by (cases "i = length ?R - 1")
           (auto simp: sorted_wrt_iff_nth_less less_imp_le)
    qed
    then show ?thesis using r by simp
  qed
  have nf: "?call = Inl ContainerNotFound \<longleftrightarrow> ?R = []"
    using select_none_iff [OF nonempty, of br p]
    by (auto simp: container_call_located [OF assms(1)] split: option.splits if_splits)
  show ?thesis
    using scan final nf recorded_empty_iff [of br p input] chain_length [of br p 15 input]
    by blast
qed

lemma fallback_examples:
  "fst (vortexExtractFormContainerBackground layers_browser \<lparr>focused = None, since_blur = 1000\<rparr>
          (str ''input[type=email]'')) =
     Inr \<lparr>color = str ''#FAFAFA'', element = JStr (str ''box'')\<rparr> \<and>
   fst (vortexExtractFormContainerBackground overlay_browser \<lparr>focused = None, since_blur = 1000\<rparr>
          (str ''input[type=email]'')) =
     Inr \<lparr>color = str ''#FFFFFF'', element = JStr (str ''BODY'')\<rparr> \<and>
   fst (vortexExtractFormContainerBackground wrapped_browser \<lparr>focused = None, since_blur = 1000\<rparr>
          (str ''input[type=email]'')) = Inl ContainerNotFound"
proof -
  let ?p = "\<lparr>focused = None, since_blur = 1000\<rparr>"
  let ?sel = "str ''input[type=email]''"
  let ?box = "\<lparr>level = 1, cand_color = str ''rgb(250, 250, 250)'', cand_element = 3\<rparr>"
  have h1: "querySelector layers_browser ?p ?sel = Some 4" by simp
  have h2: "querySelector overlay_browser ?p ?sel = Some 3" by simp
  have h3: "querySelector wrapped_browser ?p ?sel = Some 3" by simp
  have n1: "\<forall>c \<in> set (recorded layers_browser ?p 4). is_sample (cand_color c)"
    by (simp add: layers_recorded white_sample offwhite_sample half_sample)
  have n2: "\<forall>c \<in> set (recorded overlay_browser ?p 3). is_sample (cand_color c)"
    by (simp add: overlay_recorded white_sample half_sample)
  have n3: "\<forall>c \<in> set (recorded wrapped_browser ?p 3). is_sample (cand_color c)"
    by (simp add: wrapped_recorded)
  have a: "fst (vortexExtractFormContainerBackground layers_browser ?p ?sel) =
             Inr (result_of layers_browser ?p ?box)"
  proof -
    have "\<forall>d \<in> set (recorded layers_browser ?p 4). \<not> container_rule layers_browser ?p d"
      by (simp add: container_rule_def layers_containers)
    moreover have "?box \<in> set (recorded layers_browser ?p 4)"
      by (simp add: layers_recorded)
    moreover have "fallback_rule layers_browser ?p ?box"
      by (simp add: fallback_rule_def page_roots offwhite_sample)
    moreover have "\<forall>d \<in> set (recorded layers_browser ?p 4).
        fallback_rule layers_browser ?p d \<longrightarrow> level d \<le> level ?box"
      by (simp add: layers_recorded fallback_rule_def page_roots half_sample)
    ultimately show ?thesis
      using fallback_on_samples [OF h1 n1] by blast
  qed
  have b: "fst (vortexExtractFormContainerBackground overlay_browser ?p ?sel) =
             Inr (result_of overlay_browser ?p (last (recorded overlay_browser ?p 3)))"
  proof -
    have "\<forall>d \<in> set (recorded overlay_browser ?p 3). \<not> container_rule overlay_browser ?p d"
      by (simp add: container_rule_def overlay_containers)
    moreover have "\<forall>d \<in> set (recorded overlay_browser ?p 3). \<not> fallback_rule overlay_browser ?p d"
      by (simp add: overlay_recorded fallback_rule_def overlay_roots half_sample)
    moreover have "recorded overlay_browser ?p 3 \<noteq> []"
      by (simp add: overlay_recorded)
    ultimately show ?thesis
      using fallback_on_samples [OF h2 n2] by blast
  qed
  have c: "fst (vortexExtractFormContainerBackground wrapped_browser ?p ?sel) = Inl ContainerNotFound"
    using fallback_on_samples [OF h3 n3] by (simp add: wrapped_all_transparent)
  show ?thesis
    using a b c
    by (simp add: overlay_recorded result_of_def container_descriptor_def rgb_offwhite rgb_white)
qed

text \<open>
  Claim C5, at a colour outside the \<open>rgb()\<close> forms. The test of the loops takes every
  colour string without \<open>rgba\<close> in it for solid. On the page with the tint no recorded
  candidate is at a container; scanning from the highest depth, the tint, of alpha 0.5,
  is not a solid colour and the white panel below it is, so the claim names the panel.
  The call returns the tint, and unconverted.
\<close>

theorem fallback_takes_translucent_tint:
  "querySelector tint_browser \<lparr>focused = None, since_blur = 1000\<rparr> (str ''input[type=email]'') = Some 4 \<and>
   recorded tint_browser \<lparr>focused = None, since_blur = 1000\<rparr> 4 =
     [\<lparr>level = 1, cand_color = str ''rgb(255, 255, 255)'', cand_element = 3\<rparr>,
      \<lparr>level = 2, cand_color = str ''oklch(0.7 0.1 200 / 0.5)'', cand_element = 2\<rparr>] \<and>
   \<not> is_container tint_browser \<lparr>focused = None, since_blur = 1000\<rparr> 3 \<and>
   \<not> is_container tint_browser \<lparr>focused = None, since_blur = 1000\<rparr> 2 \<and>
   \<not> solid_color (str ''oklch(0.7 0.1 200 / 0.5)'') \<and>
   solid (str ''oklch(0.7 0.1 200 / 0.5)'') \<and>
   fallback_rule tint_browser \<lparr>focused = None, since_blur = 1000\<rparr>
     \<lparr>level = 1, cand_color = str ''rgb(255, 255, 255)'', cand_element = 3\<rparr> \<and>
   vortexRgbToHex (str ''rgb(255, 255, 255)'') = str ''#FFFFFF'' \<and>
   fst (vortexExtractFormContainerBackground tint_browser \<lparr>focused = None, since_blur = 1000\<rparr>
          (str ''input[type=email]'')) =
     Inr \<lparr>color = str ''oklch(0.7 0.1 200 / 0.5)'', element = JStr (str ''tint'')\<rparr>"
proof -
  let ?p = "\<lparr>focused = None, since_blur = 1000\<rparr>"
  have h: "querySelector tint_browser ?p (str ''input[type=email]'') = Some 4" by simp
  have f: "fallback_rule tint_browser ?p
     \<lparr>level = 1, cand_color = str ''rgb(255, 255, 255)'', cand_element = 3\<rparr>"
    by (simp add: fallback_rule_def page_roots white_sample)
  have "fst (vortexExtractFormContainerBackground tint_browser ?p (str ''input[type=email]'')) =
     Inr \<lparr>color = str ''oklch(0.7 0.1 200 / 0.5)'', element = JStr (str ''tint'')\<rparr>"
    by (simp add: container_call_located [OF h] tint_recorded select_candidate_def falsy_def
        tint_containers first_loop_find first_loop_test_def second_loop_find second_loop_test_def
        page_roots solid_oklch solid_white result_of_def container_descriptor_def rgb_oklch Let_def)
  then show ?thesis
    using h f by (simp add: tint_recorded tint_containers oklch_not_sample solid_oklch rgb_white)
qed

section \<open>Properties of the colour converter\<close>

lemma strip_rgb_None: "c \<noteq> 114 \<Longrightarrow> strip_prefix (str ''rgb'') (c # cs) = None"
  by (simp add: str_def)

lemma match_here_Nil: "match_here [] = None"
  by (simp add: match_here_def str_def)

lemma match_here_not_r: "c \<noteq> 114 \<Longrightarrow> match_here (c # cs) = None"
  by (simp add: match_here_def strip_rgb_None)

lemma no_r_no_match: "114 \<notin> set s \<Longrightarrow> rgb_exec s = None"
proof (induction s)
  case Nil
  then show ?case by (simp add: match_here_Nil)
next
  case (Cons c cs)
  then have "c \<noteq> 114" by auto
  then have "match_here (c # cs) = None" by (rule match_here_not_r)
  then show ?case using Cons by simp
qed

lemma toUpperCase_no_r: "114 \<notin> set (toUpperCase s)"
  by (auto simp: toUpperCase_def)

lemma converted_upper:
  "rgb_exec s = Some m \<Longrightarrow> \<exists>x. vortexRgbToHex s = toUpperCase x"
  by (simp add: vortexRgbToHex_def Let_def) (rule exI, rule refl)

text \<open>
  Claim C7. A string in which the pattern matches nowhere is returned unchanged, and
  converting twice is converting once: a converted string is upper case, so it has no
  \<open>r\<close> in it and the pattern, which starts with \<open>rgb\<close>, does not match it.
\<close>

theorem rgbToHex_idempotent:
  "(rgb_exec s = None \<longrightarrow> vortexRgbToHex s = s) \<and>
   rgb_exec (vortexRgbToHex s) = None \<and>
   vortexRgbToHex (vortexRgbToHex s) = vortexRgbToHex s"
proof -
  have a: "rgb_exec s = None \<Longrightarrow> vortexRgbToHex s = s"
    by (simp add: vortexRgbToHex_def)
  have b: "rgb_exec (vortexRgbToHex s) = None"
  proof (cases "rgb_exec s")
    case None
    then show ?thesis using a by simp
  next
    case (Some m)
    then obtain x where "vortexRgbToHex s = toUpperCase x"
      using converted_upper by blast
    then show ?thesis by (simp add: no_r_no_match toUpperCase_no_r)
  qed
  have "vortexRgbToHex (vortexRgbToHex s) = vortexRgbToHex s"
    using b by (simp add: vortexRgbToHex_def [of "vortexRgbToHex s"])
  then show ?thesis using a b by simp
qed

lemma rgb_exec_skip:
  "\<forall>k < length pre. match_here (drop k (pre @ t)) = None \<Longrightarrow> rgb_exec (pre @ t) = rgb_exec t"
proof (induction pre)
  case Nil
  then show ?case by simp
next
  case (Cons c pre)
  have "0 < length (c # pre) \<longrightarrow> match_here (drop 0 ((c # pre) @ t)) = None"
    using Cons.prems by (rule spec)
  then have "match_here (drop 0 ((c # pre) @ t)) = None" by simp
  then have h: "match_here (c # pre @ t) = None" by simp
  have "\<forall>k < length pre. match_here (drop k (pre @ t)) = None"
  proof (intro allI impI)
    fix k assume "k < length pre"
    then have "Suc k < length (c # pre)" by simp
    moreover have "Suc k < length (c # pre) \<longrightarrow> match_here (drop (Suc k) ((c # pre) @ t)) = None"
      using Cons.prems by (rule spec)
    ultimately have "match_here (drop (Suc k) ((c # pre) @ t)) = None"
      by (rule rev_mp)
    then show "match_here (drop k (pre @ t)) = None" by simp
  qed
  then have "rgb_exec (pre @ t) = rgb_exec t" by (rule Cons.IH)
  then show ?case using h by simp
qed


lemma rgb_exec_here: "match_here t = Some m \<Longrightarrow> rgb_exec t = Some m"
  by (cases t) simp_all

lemma same_captures:
  "rgb_exec s = Some m \<Longrightarrow> rgb_exec s' = Some m \<Longrightarrow> vortexRgbToHex s = vortexRgbToHex s'"
  by (simp add: vortexRgbToHex_def)

text \<open>
  Claim C10. The pattern is searched for anywhere in the string. When \<open>t\<close> starts with a
  colour and no match starts earlier, inside \<open>pre\<close>, the string \<open>pre @ t\<close> converts to what
  \<open>t\<close> converts to: the result is determined by the captures of the first match alone, it
  is the same for every string with these captures, and none of the text around the
  colour is in it.
\<close>

theorem embedded_color_converted:
  assumes "match_here t = Some m"
    and "\<forall>k < length pre. match_here (drop k (pre @ t)) = None"
  shows "rgb_exec (pre @ t) = Some m \<and>
         vortexRgbToHex (pre @ t) = vortexRgbToHex t \<and>
         (\<forall>s'. rgb_exec s' = Some m \<longrightarrow> vortexRgbToHex s' = vortexRgbToHex (pre @ t)) \<and>
         114 \<notin> set (vortexRgbToHex (pre @ t))"
proof (intro conjI allI impI)
  have t: "rgb_exec t = Some m" using assms(1) by (rule rgb_exec_here)
  have "rgb_exec (pre @ t) = rgb_exec t" using assms(2) by (rule rgb_exec_skip)
  then show e: "rgb_exec (pre @ t) = Some m" using t by simp
  show "vortexRgbToHex (pre @ t) = vortexRgbToHex t"
    using e t by (rule same_captures)
  show "vortexRgbToHex s' = vortexRgbToHex (pre @ t)" if "rgb_exec s' = Some m" for s'
    using that e by (rule same_captures)
  obtain x where "vortexRgbToHex (pre @ t) = toUpperCase x"
    using converted_upper [OF e] by blast
  then show "114 \<notin> set (vortexRgbToHex (pre @ t))"
    by (simp add: toUpperCase_no_r)
qed

lemma rgb_test: "vortexRgbToHex (str ''rgb(7, 39, 31)'') = str ''#07271F''"
  by (simp add: str_eval num_eval)

theorem rgbToHex_idempotent_witness:
  "rgb_exec (str ''#07271F'') = None \<and>
   vortexRgbToHex (str ''#07271F'') = str ''#07271F'' \<and>
   vortexRgbToHex (str ''rgb(7, 39, 31)'') = str ''#07271F'' \<and>
   vortexRgbToHex (vortexRgbToHex (str ''rgb(7, 39, 31)'')) = str ''#07271F''"
proof -
  have n: "rgb_exec (str ''#07271F'') = None"
    by (rule no_r_no_match) (simp add: str_def)
  show ?thesis
    using n rgbToHex_idempotent [of "str ''#07271F''"] rgbToHex_idempotent [of "str ''rgb(7, 39, 31)''"]
    by (simp add: rgb_test)
qed

lemma no_r_prefix:
  assumes "114 \<notin> set pre"
  shows "\<forall>k < length pre. match_here (drop k (pre @ t)) = None"
proof (intro allI impI)
  fix k assume k: "k < length pre"
  then have "drop k (pre @ t) = pre ! k # drop (Suc k) (pre @ t)"
    by (simp add: Cons_nth_drop_Suc nth_append)
  moreover have "pre ! k \<noteq> 114" using assms k by (metis nth_mem)
  ultimately show "match_here (drop k (pre @ t)) = None"
    by (simp add: match_here_not_r)
qed

theorem embedded_color_converted_witness:
  "match_here (str ''rgb(7, 39, 31) inset'') =
     Some \<lparr>m1 = str ''7'', m2 = str ''39'', m3 = str ''31'', m4 = None\<rparr> \<and>
   str ''1px solid rgb(7, 39, 31) inset'' = str ''1px solid '' @ str ''rgb(7, 39, 31) inset'' \<and>
   vortexRgbToHex (str ''1px solid rgb(7, 39, 31) inset'') = str ''#07271F''"
proof -
  have m: "match_here (str ''rgb(7, 39, 31) inset'') =
     Some \<lparr>m1 = str ''7'', m2 = str ''39'', m3 = str ''31'', m4 = None\<rparr>"
    by (simp add: str_eval)
  have p: "\<forall>k < length (str ''1px solid ''). match_here (drop k (str ''1px solid '' @ str ''rgb(7, 39, 31) inset'')) = None"
    by (rule no_r_prefix) (simp add: str_def)
  have s: "str ''1px solid rgb(7, 39, 31) inset'' = str ''1px solid '' @ str ''rgb(7, 39, 31) inset''"
    by (simp add: str_def)
  have "rgb_exec (str ''rgb(7, 39, 31)'') = Some \<lparr>m1 = str ''7'', m2 = str ''39'', m3 = str ''31'', m4 = None\<rparr>"
    by (simp add: str_eval)
  then have "vortexRgbToHex (str ''rgb(7, 39, 31)'') =
          vortexRgbToHex (str ''1px solid '' @ str ''rgb(7, 39, 31) inset'')"
    using embedded_color_converted [OF m p] by (simp only:)
  then show ?thesis using m s by (simp only: rgb_test)
qed

end
